theory Spec2Isabelle
  imports Complex_Main "HOL-Library.Multiset" "HOL-Library.Char_ord" "HOL-Library.List_Lexorder"
begin

section \<open>Python values, errors and string formatting\<close>

text \<open>
  The exceptions the two scripts can raise.  \<open>LibraryError\<close> stands for any exception
  raised inside a library routine the scripts delegate to (reading a CSV file, executing
  or importing a module, calling the generator found in a module).
\<close>

datatype py_error =
    IndexError
  | KeyError
  | ValueError
  | ImportError
  | AttributeError
  | LibraryError string

text \<open>
  A value stored in a generated row whose runtime type varies: \<open>model_year\<close> and
  \<open>msrp\<close> hold an \<open>int\<close> or, after a defect injection, a \<open>str\<close>.
\<close>

datatype pyval = PyInt int | PyStr string

subsection \<open>Decimal rendering\<close>

definition digit_char :: "nat \<Rightarrow> char" where
  "digit_char d = char_of (48 + d)"

fun str_nat :: "nat \<Rightarrow> string" where
  "str_nat n = (if n < 10 then [digit_char n] else str_nat (n div 10) @ [digit_char (n mod 10)])"

declare str_nat.simps [simp del]

text \<open>\<open>str(i)\<close> for a Python \<open>int\<close>.\<close>

definition str_int :: "int \<Rightarrow> string" where
  "str_int i = (if i < 0 then CHR ''-'' # str_nat (nat (- i)) else str_nat (nat i))"

text \<open>\<open>str(v)\<close> for the two kinds of value a mixed field holds.\<close>

fun py_str :: "pyval \<Rightarrow> string" where
  "py_str (PyInt i) = str_int i"
| "py_str (PyStr s) = s"

text \<open>\<open>s.zfill(w)\<close> on a string of digits: zeros on the left up to width \<open>w\<close>.\<close>

definition zfill :: "nat \<Rightarrow> string \<Rightarrow> string" where
  "zfill w s = replicate (w - length s) CHR ''0'' @ s"

text \<open>The format specification \<open>03\<close> (as in \<open>f"{n:03}"\<close>) on a non-negative integer.\<close>

definition format_03 :: "nat \<Rightarrow> string" where
  "format_03 n = zfill 3 (str_nat n)"

text \<open>The format specification \<open>,\<close> (thousands separators) on an integer.\<close>

fun comma_nat :: "nat \<Rightarrow> string" where
  "comma_nat n =
     (if n < 1000 then str_nat n
      else comma_nat (n div 1000) @ '','' @ zfill 3 (str_nat (n mod 1000)))"

declare comma_nat.simps [simp del]

definition format_comma :: "int \<Rightarrow> string" where
  "format_comma i = (if i < 0 then CHR ''-'' # comma_nat (nat (- i)) else comma_nat (nat i))"

text \<open>Reading a string of decimal digits back, used to show that rendering is injective.\<close>

definition digit_val :: "char \<Rightarrow> nat" where
  "digit_val c = of_char c - 48"

definition digits_val :: "string \<Rightarrow> nat" where
  "digits_val s = foldl (\<lambda>a c. 10 * a + digit_val c) 0 s"

section \<open>The random number generator\<close>

text \<open>
  \<open>random.Random\<close> is library code.  The generator script is verified for every
  implementation of its primitives: \<open>rng_seed\<close> is \<open>random.Random(seed)\<close>,
  \<open>rng_randbelow n\<close> is the library's draw of an index below \<open>n\<close>, and
  \<open>rng_random\<close> is \<open>random()\<close>, a number in the unit interval (kept exact as a
  rational; the script only compares it with constants).  Every draw is taken to
  return, and gives the new generator state.
\<close>

record 's rng =
  rng_seed :: "int \<Rightarrow> 's"
  rng_randbelow :: "nat \<Rightarrow> 's \<Rightarrow> nat \<times> 's"
  rng_random :: "'s \<Rightarrow> rat \<times> 's"

text \<open>The contract of the index draw: below a positive bound, the result is below it.\<close>

definition rng_wf :: "'s rng \<Rightarrow> bool" where
  "rng_wf R \<longleftrightarrow> (\<forall>n s. 0 < n \<longrightarrow> fst (rng_randbelow R n s) < n)"

text \<open>
  A computation that threads the generator state and may raise: the state goes in, and
  either an error or a result with the new state comes out.
\<close>

type_synonym ('s, 'a) rand = "'s \<Rightarrow> py_error + ('a \<times> 's)"

definition returnR :: "'a \<Rightarrow> ('s, 'a) rand" where
  "returnR a = (\<lambda>s. Inr (a, s))"

definition raiseR :: "py_error \<Rightarrow> ('s, 'a) rand" where
  "raiseR e = (\<lambda>s. Inl e)"

definition bindR :: "('s, 'a) rand \<Rightarrow> ('a \<Rightarrow> ('s, 'b) rand) \<Rightarrow> ('s, 'b) rand" where
  "bindR m f = (\<lambda>s. case m s of Inl e \<Rightarrow> Inl e | Inr (a, s') \<Rightarrow> f a s')"

text \<open>\<open>rng.random()\<close>.\<close>

definition random_draw :: "'s rng \<Rightarrow> ('s, rat) rand" where
  "random_draw R = (\<lambda>s. Inr (rng_random R s))"

text \<open>
  \<open>rng.choice(seq)\<close>: an empty sequence raises \<open>IndexError\<close>; otherwise the element
  at the drawn index, and indexing out of range raises as Python's does.
\<close>

definition choice :: "'s rng \<Rightarrow> 'a list \<Rightarrow> ('s, 'a) rand" where
  "choice R xs = (\<lambda>s.
     if xs = [] then Inl IndexError
     else (case rng_randbelow R (length xs) s of
             (i, s') \<Rightarrow> if i < length xs then Inr (xs ! i, s') else Inl IndexError))"

text \<open>
  \<open>rng.randrange(start, stop, step)\<close> for a positive step: one of the
  \<open>(stop - start + step - 1) // step\<close> values \<open>start + step * k\<close>; an empty range
  raises \<open>ValueError\<close>.
\<close>

definition randrange :: "'s rng \<Rightarrow> int \<Rightarrow> int \<Rightarrow> int \<Rightarrow> ('s, int) rand" where
  "randrange R start stop step = (\<lambda>s.
     let n = (stop - start + step - 1) div step in
     if n \<le> 0 then Inl ValueError
     else (case rng_randbelow R (nat n) s of (k, s') \<Rightarrow> Inr (start + step * int k, s')))"

text \<open>
  \<open>rng.shuffle(x)\<close>: for \<open>i\<close> from \<open>len(x) - 1\<close> down to \<open>1\<close>, draw \<open>j\<close> below
  \<open>i + 1\<close> and swap \<open>x[i]\<close> with \<open>x[j]\<close>.
\<close>

fun shuffle_loop :: "'s rng \<Rightarrow> nat list \<Rightarrow> 'a list \<Rightarrow> ('s, 'a list) rand" where
  "shuffle_loop R [] x = returnR x"
| "shuffle_loop R (i # is) x = (\<lambda>s.
     case rng_randbelow R (i + 1) s of
       (j, s') \<Rightarrow>
         if i < length x \<and> j < length x
         then shuffle_loop R is (x[i := x ! j, j := x ! i]) s'
         else Inl IndexError)"

definition shuffle :: "'s rng \<Rightarrow> 'a list \<Rightarrow> ('s, 'a list) rand" where
  "shuffle R x = shuffle_loop R (rev [1..<length x]) x"

section \<open>The generator (data_generation.py)\<close>

text \<open>
  One row of the generated data: the dictionary built at lines 32 to 43, whose ten keys
  are fixed
  (the key \<open>make\<close> is the field \<open>car_make\<close>).  \<open>None\<close> is the \<open>None\<close> of the two nullable fields.
\<close>

record car_row =
  car_id :: string
  car_make :: string
  model :: string
  model_year :: pyval
  trim_level :: string
  exterior_color :: "string option"
  transmission :: string
  fuel_type :: string
  infotainment_system :: "string option"
  msrp :: pyval

definition models_by_make :: "(string \<times> string list) list" where
  "models_by_make =
     [(''Toyota'', [''Corolla'', ''Camry'', ''RAV4'', ''Prius'']),
      (''Honda'', [''Civic'', ''Accord'', ''CR-V'', ''Pilot'']),
      (''Ford'', [''Focus'', ''Fusion'', ''Escape'', ''Explorer'']),
      (''BMW'', [''320i'', ''X5'', ''X3'', ''M3'']),
      (''Tesla'', [''Model S'', ''Model 3'', ''Model X'', ''Model Y''])]"

definition trims :: "string list" where
  "trims = [''Base'', ''Sport'', ''Premium'', ''Limited'']"

definition colors :: "string list" where
  "colors = [''Red'', ''Blue'', ''Black'', ''White'', ''Silver'', ''Gray'']"

definition transmissions :: "string list" where
  "transmissions = [''automatic'', ''manual'', ''CVT'', ''dual clutch'']"

definition fuels :: "string list" where
  "fuels = [''gasoline'', ''diesel'', ''hybrid'', ''electric'']"

definition infotainment :: "string list" where
  "infotainment = [''Basic Audio'', ''Touchscreen'', ''Premium Audio'', ''Navigation'']"

text \<open>\<open>models_by_make[make]\<close>: a missing key raises \<open>KeyError\<close>.\<close>

definition lookup_models :: "string \<Rightarrow> ('s, string list) rand" where
  "lookup_models mk =
     (case map_of models_by_make mk of None \<Rightarrow> raiseR KeyError | Some ms \<Rightarrow> returnR ms)"

definition duplicate_rows_needed :: "int \<Rightarrow> int" where
  "duplicate_rows_needed rows = max 2 (rows div 6)"

definition base_rows :: "int \<Rightarrow> int" where
  "base_rows rows = rows - duplicate_rows_needed rows"

text \<open>Lines 28 to 43: the draws of one base row, in the order the script makes them.\<close>

definition draw_row :: "'s rng \<Rightarrow> nat \<Rightarrow> ('s, car_row \<times> int) rand" where
  "draw_row R idx =
     bindR (choice R (map fst models_by_make)) (\<lambda>mk.
     bindR (lookup_models mk) (\<lambda>models.
     bindR (choice R models) (\<lambda>mdl.
     bindR (randrange R 22000 70000 500) (\<lambda>price.
     bindR (choice R [2013..2023]) (\<lambda>year.
     bindR (choice R trims) (\<lambda>trim.
     bindR (choice R colors) (\<lambda>color.
     bindR (choice R transmissions) (\<lambda>trans.
     bindR (choice R fuels) (\<lambda>fuel.
     bindR (choice R infotainment) (\<lambda>info.
     returnR
       (\<lparr>car_id = ''C'' @ format_03 (idx + 1),
         car_make = mk,
         model = mdl,
         model_year = PyInt year,
         trim_level = trim,
         exterior_color = Some color,
         transmission = trans,
         fuel_type = fuel,
         infotainment_system = Some info,
         msrp = PyInt price\<rparr>, price)))))))))))"

text \<open>
  Lines 46 to 67: the defect injections.  Each draws \<open>rng.random()\<close> and compares it
  with its probability; three of them draw a replacement with \<open>rng.choice\<close> when taken.
\<close>

definition inject_issues :: "'s rng \<Rightarrow> int \<Rightarrow> car_row \<Rightarrow> ('s, car_row) rand" where
  "inject_issues R price row0 =
     bindR (random_draw R) (\<lambda>u.
     bindR (returnR (if u < 20 / 100 then row0\<lparr>model := '' '' @ model row0 @ ''  ''\<rparr> else row0)) (\<lambda>row1.
     bindR (random_draw R) (\<lambda>u.
     bindR (returnR (if u < 18 / 100 then row1\<lparr>exterior_color := None\<rparr> else row1)) (\<lambda>row2.
     bindR (random_draw R) (\<lambda>u.
     bindR (returnR (if u < 15 / 100 then row2\<lparr>model_year := PyStr (py_str (model_year row2))\<rparr> else row2)) (\<lambda>row3.
     bindR (random_draw R) (\<lambda>u.
     bindR (returnR (if u < 12 / 100 then row3\<lparr>msrp := PyStr (''$'' @ format_comma price)\<rparr> else row3)) (\<lambda>row4.
     bindR (random_draw R) (\<lambda>u.
     bindR (returnR (if u < 10 / 100 then row4\<lparr>msrp := PyStr ''N/A''\<rparr> else row4)) (\<lambda>row5.
     bindR (random_draw R) (\<lambda>u.
     bindR (if u < 14 / 100
            then bindR (choice R [''standart'', ''Premuim'', ''luxary'', trim_level row5])
                   (\<lambda>t. returnR (row5\<lparr>trim_level := t\<rparr>))
            else returnR row5) (\<lambda>row6.
     bindR (random_draw R) (\<lambda>u.
     bindR (if u < 12 / 100
            then bindR (choice R [''Automtic'', ''manuall'', ''automatic '', ''AUTOMATIC''])
                   (\<lambda>t. returnR (row6\<lparr>transmission := t\<rparr>))
            else returnR row6) (\<lambda>row7.
     bindR (random_draw R) (\<lambda>u.
     bindR (if u < 10 / 100
            then bindR (choice R [''gasolen'', ''deisel'', fuel_type row7])
                   (\<lambda>t. returnR (row7\<lparr>fuel_type := t\<rparr>))
            else returnR row7) (\<lambda>row8.
     bindR (random_draw R) (\<lambda>u.
     returnR (if u < 8 / 100 then row8\<lparr>infotainment_system := None\<rparr> else row8))))))))))))))))))"

text \<open>The body of the loop at line 27, for one \<open>idx\<close>.\<close>

definition build_row :: "'s rng \<Rightarrow> nat \<Rightarrow> ('s, car_row) rand" where
  "build_row R idx = bindR (draw_row R idx) (\<lambda>(row, price). inject_issues R price row)"

text \<open>The loop at line 27 over \<open>range(base_rows)\<close>, appending to \<open>data\<close>.\<close>

fun build_rows :: "'s rng \<Rightarrow> nat list \<Rightarrow> car_row list \<Rightarrow> ('s, car_row list) rand" where
  "build_rows R [] data = returnR data"
| "build_rows R (idx # idxs) data =
     bindR (build_row R idx) (\<lambda>row. build_rows R idxs (data @ [row]))"

text \<open>The loop at line 71: each round appends a copy of a row chosen from \<open>data\<close>.\<close>

fun add_duplicates :: "'s rng \<Rightarrow> nat \<Rightarrow> car_row list \<Rightarrow> ('s, car_row list) rand" where
  "add_duplicates R 0 data = returnR data"
| "add_duplicates R (Suc n) data =
     bindR (choice R data) (\<lambda>duplicate_row. add_duplicates R n (data @ [duplicate_row]))"

text \<open>
  Lines 8 to 75: the list \<open>data\<close> the script hands to \<open>pd.DataFrame\<close>.
  \<open>range(n)\<close> is empty for \<open>n \<le> 0\<close>, as \<open>nat n\<close> is \<open>0\<close> there.
\<close>

definition generate_data :: "'s rng \<Rightarrow> int \<Rightarrow> int \<Rightarrow> py_error + car_row list" where
  "generate_data R rows seed =
     (case bindR (build_rows R [0..<nat (base_rows rows)] []) (\<lambda>data.
           bindR (add_duplicates R (nat (duplicate_rows_needed rows)) data) (\<lambda>data.
           shuffle R data)) (rng_seed R seed) of
        Inl e \<Rightarrow> Inl e
      | Inr (data, s) \<Rightarrow> Inr data)"

section \<open>Tables\<close>

text \<open>
  A cell of a table, as the diagnoser reads it.  The tables it loads come from a CSV file
  or from this generator, so a cell is a missing value (\<open>Null\<close>: \<open>None\<close> or NaN,
  which \<open>isna\<close> and \<open>dropna\<close> treat alike) or a value of one of the Python types
  \<open>int\<close>, \<open>float\<close> (other than NaN), \<open>bool\<close> and \<open>str\<close>.
\<close>

datatype cell =
    Null
  | IntCell int
  | FloatCell rat
  | BoolCell bool
  | StrCell string

text \<open>
  A table (\<open>pd.DataFrame\<close>): the column names in order, and the rows in order, each
  row holding one cell per column.
\<close>

record dataframe =
  df_columns :: "string list"
  df_rows :: "cell list list"

text \<open>\<open>df[column]\<close>: the cells of one column, in row order.\<close>

definition column_values :: "dataframe \<Rightarrow> string \<Rightarrow> cell list" where
  "column_values df column =
     map (\<lambda>r. case map_of (zip (df_columns df) r) column of None \<Rightarrow> Null | Some v \<Rightarrow> v)
       (df_rows df)"

text \<open>
  \<open>df.duplicated()\<close>: a row is marked when an earlier row is equal to it in every
  column.  Values are compared as pandas compares them: two missing values are equal,
  numbers are equal by their value whatever their type (\<open>1\<close>, \<open>1.0\<close> and \<open>True\<close>
  are equal), and a text is equal to the same text only.
\<close>

fun cell_number :: "cell \<Rightarrow> rat option" where
  "cell_number (IntCell i) = Some (of_int i)"
| "cell_number (FloatCell f) = Some f"
| "cell_number (BoolCell b) = Some (if b then 1 else 0)"
| "cell_number Null = None"
| "cell_number (StrCell s) = None"

definition cell_equal :: "cell \<Rightarrow> cell \<Rightarrow> bool" where
  "cell_equal a b =
     (case (cell_number a, cell_number b) of
        (Some x, Some y) \<Rightarrow> x = y
      | (None, None) \<Rightarrow> a = b
      | _ \<Rightarrow> False)"

definition row_equal :: "cell list \<Rightarrow> cell list \<Rightarrow> bool" where
  "row_equal r r' = list_all2 cell_equal r r'"

definition duplicated :: "cell list list \<Rightarrow> bool list" where
  "duplicated rows =
     map (\<lambda>i. list_ex (\<lambda>r. row_equal r (rows ! i)) (take i rows)) [0..<length rows]"

definition duplicate_count :: "dataframe \<Rightarrow> nat" where
  "duplicate_count df = length (filter (\<lambda>b. b) (duplicated (df_rows df)))"

text \<open>
  \<open>pd.DataFrame(data)\<close> on the generator's list of dictionaries: the keys become the
  columns, in the order of the dictionary, and every value is kept as it is (no generated
  column mixes numbers with \<open>None\<close>, the case in which pandas would change the values).
  An empty list gives a table with no columns.
\<close>

definition row_keys :: "string list" where
  "row_keys =
     [''car_id'', ''make'', ''model'', ''model_year'', ''trim_level'', ''exterior_color'',
      ''transmission'', ''fuel_type'', ''infotainment_system'', ''msrp'']"

fun cell_of_pyval :: "pyval \<Rightarrow> cell" where
  "cell_of_pyval (PyInt i) = IntCell i"
| "cell_of_pyval (PyStr s) = StrCell s"

fun cell_of_opt :: "string option \<Rightarrow> cell" where
  "cell_of_opt None = Null"
| "cell_of_opt (Some s) = StrCell s"

definition row_cells :: "car_row \<Rightarrow> cell list" where
  "row_cells r =
     [StrCell (car_id r), StrCell (car_make r), StrCell (model r), cell_of_pyval (model_year r),
      StrCell (trim_level r), cell_of_opt (exterior_color r), StrCell (transmission r),
      StrCell (fuel_type r), cell_of_opt (infotainment_system r), cell_of_pyval (msrp r)]"

definition DataFrame :: "car_row list \<Rightarrow> dataframe" where
  "DataFrame data =
     (if data = [] then \<lparr>df_columns = [], df_rows = []\<rparr>
      else \<lparr>df_columns = row_keys, df_rows = map row_cells data\<rparr>)"

text \<open>The function of the script: lines 6 to 76.\<close>

definition generate_raw_car_equipment_data :: "'s rng \<Rightarrow> int \<Rightarrow> int \<Rightarrow> py_error + dataframe" where
  "generate_raw_car_equipment_data R rows seed =
     (case generate_data R rows seed of
        Inl e \<Rightarrow> Inl e
      | Inr data \<Rightarrow> Inr (DataFrame data))"

section \<open>The diagnoser (data_diagnosis/diagnose_data.py): the checks\<close>

subsection \<open>Library routines used by the checks\<close>

text \<open>\<open>sep.join(parts)\<close>.\<close>

fun join :: "string \<Rightarrow> string list \<Rightarrow> string" where
  "join sep [] = []"
| "join sep [x] = x"
| "join sep (x # y # ys) = x @ sep @ join sep (y # ys)"

text \<open>
  \<open>s.strip()\<close>: whitespace removed at both ends.  Text is modelled as strings of
  8-bit characters (the code points below 256), and whitespace is what \<open>str.isspace\<close>
  accepts among them.
\<close>

definition is_space :: "char \<Rightarrow> bool" where
  "is_space c \<longleftrightarrow>
     (of_char c :: nat) \<in> set [9, 10, 11, 12, 13, 28, 29, 30, 31, 32, 133, 160]"

definition strip :: "string \<Rightarrow> string" where
  "strip s = rev (dropWhile is_space (rev (dropWhile is_space s)))"

text \<open>\<open>type(val).__name__\<close> of a cell.\<close>

fun type_name :: "cell \<Rightarrow> string" where
  "type_name Null = ''NoneType''"
| "type_name (IntCell i) = ''int''"
| "type_name (FloatCell f) = ''float''"
| "type_name (BoolCell b) = ''bool''"
| "type_name (StrCell s) = ''str''"

text \<open>\<open>isna\<close> on a cell, and \<open>series.dropna()\<close>.\<close>

fun isna :: "cell \<Rightarrow> bool" where
  "isna Null = True"
| "isna c = False"

definition dropna :: "cell list \<Rightarrow> cell list" where
  "dropna cells = filter (\<lambda>c. \<not> isna c) cells"

text \<open>
  The parts of pandas the checks depend on and this development does not fix:
  \<open>parses_numeric s\<close> says that \<open>pd.to_numeric\<close> reads the text \<open>s\<close> as a number
  (other than NaN), and \<open>object_dtype cells\<close> says that a column with these cells has
  the dtype \<open>object\<close>, which \<open>select_dtypes(include="object")\<close> keeps.
\<close>

record pandas =
  parses_numeric :: "string \<Rightarrow> bool"
  object_dtype :: "cell list \<Rightarrow> bool"

text \<open>
  \<open>pd.to_numeric(series, errors="coerce")\<close> followed by \<open>isna()\<close>, on one cell: the
  result is NaN for a missing value and for a text that does not parse; numbers and
  booleans are kept.
\<close>

fun to_numeric_isna :: "pandas \<Rightarrow> cell \<Rightarrow> bool" where
  "to_numeric_isna PD Null = True"
| "to_numeric_isna PD (StrCell s) = (\<not> parses_numeric PD s)"
| "to_numeric_isna PD (IntCell i) = False"
| "to_numeric_isna PD (FloatCell f) = False"
| "to_numeric_isna PD (BoolCell b) = False"

subsection \<open>The checks, in the order of the script\<close>

definition EXPECTED_VALUES :: "(string \<times> string set) list" where
  "EXPECTED_VALUES =
     [(''trim_level'', {''Base'', ''Sport'', ''Premium'', ''Limited''}),
      (''transmission'', {''automatic'', ''manual'', ''CVT'', ''dual clutch''}),
      (''fuel_type'', {''gasoline'', ''diesel'', ''hybrid'', ''electric''})]"

text \<open>Lines 85 to 89: the title, the number of rows and the number of columns.\<close>

definition header_lines :: "dataframe \<Rightarrow> string list" where
  "header_lines df =
     [''Data diagnosis report'',
      ''- Rows: '' @ str_nat (length (df_rows df)),
      ''- Columns: '' @ str_nat (length (df_columns df))]"

text \<open>Lines 91 and 92.\<close>

definition duplicate_lines :: "dataframe \<Rightarrow> string list" where
  "duplicate_lines df = [''- Duplicate rows detected: '' @ str_nat (duplicate_count df)]"

text \<open>
  Lines 94 to 101: \<open>df.isna().sum()\<close> holds one count per column, in column order;
  \<open>null_columns\<close> renders the columns whose count is positive.
\<close>

definition null_counts :: "dataframe \<Rightarrow> (string \<times> nat) list" where
  "null_counts df =
     map (\<lambda>col. (col, length (filter isna (column_values df col)))) (df_columns df)"

definition null_columns :: "dataframe \<Rightarrow> string list" where
  "null_columns df =
     map (\<lambda>(col, count). col @ '' ('' @ str_nat count @ '')'')
       (filter (\<lambda>(col, count). count > 0) (null_counts df))"

definition null_lines :: "dataframe \<Rightarrow> string list" where
  "null_lines df =
     (if null_columns df \<noteq> []
      then [''- Columns containing null values: '' @ join '', '' (null_columns df)]
      else [''- Columns containing null values: none''])"

text \<open>Lines 103 to 108.\<close>

definition distinct_types :: "cell list \<Rightarrow> string set" where
  "distinct_types cells = set (map type_name (dropna cells))"

definition mixed_type_lines :: "dataframe \<Rightarrow> string list" where
  "mixed_type_lines df =
     concat (map (\<lambda>column.
        let types = distinct_types (column_values df column) in
        if card types > 1
        then [''- Mixed data types in '' @ [CHR 0x27] @ column @ [CHR 0x27] @ '': '' @
                join '', '' (sorted_list_of_set types)]
        else []) (df_columns df))"

text \<open>
  Lines 110 to 122: per column of dtype \<open>object\<close>, the number of texts that differ from
  their stripped form; one line per column where that number is not zero, in column
  order (\<open>string_issues\<close> is a dictionary, filled in that order).
\<close>

definition trimmed_mismatch :: "cell list \<Rightarrow> string list" where
  "trimmed_mismatch cells =
     filter (\<lambda>s. s \<noteq> strip s)
       (concat (map (\<lambda>c. case c of StrCell s \<Rightarrow> [s] | _ \<Rightarrow> []) (dropna cells)))"

definition string_issues :: "pandas \<Rightarrow> dataframe \<Rightarrow> (string \<times> nat \<times> string) list" where
  "string_issues PD df =
     concat (map (\<lambda>column.
        let mismatch = trimmed_mismatch (column_values df column) in
        if mismatch \<noteq> [] then [(column, length mismatch, ''leading/trailing spaces'')] else [])
       (filter (\<lambda>column. object_dtype PD (column_values df column)) (df_columns df)))"

definition string_issue_lines :: "pandas \<Rightarrow> dataframe \<Rightarrow> string list" where
  "string_issue_lines PD df =
     map (\<lambda>(column, count, description).
        ''- '' @ str_nat count @ '' values in '' @ [CHR 0x27] @ column @ [CHR 0x27] @
        '' have '' @ description) (string_issues PD df)"

text \<open>
  Lines 124 to 137: the loop at line 128 adds to the set \<open>unexpected_values\<close> the type
  name of a value that is not a text, and a text that is not in \<open>expected\<close>.
\<close>

fun add_unexpected :: "string set \<Rightarrow> cell \<Rightarrow> string set \<Rightarrow> string set" where
  "add_unexpected expected (StrCell s) acc = (if s \<notin> expected then insert s acc else acc)"
| "add_unexpected expected v acc = insert (type_name v) acc"

definition unexpected_values :: "string set \<Rightarrow> cell list \<Rightarrow> string set" where
  "unexpected_values expected cells = fold (add_unexpected expected) (dropna cells) {}"

definition unexpected_lines_for :: "dataframe \<Rightarrow> string \<Rightarrow> string set \<Rightarrow> string list" where
  "unexpected_lines_for df column expected =
     (if column \<notin> set (df_columns df) then []
      else let unexpected = unexpected_values expected (column_values df column) in
        if unexpected \<noteq> {}
        then [''- Unexpected values in '' @ [CHR 0x27] @ column @ [CHR 0x27] @ '': '' @
                join '', '' (sorted_list_of_set unexpected)]
        else [])"

definition unexpected_value_lines :: "dataframe \<Rightarrow> string list" where
  "unexpected_value_lines df =
     concat (map (\<lambda>(column, expected). unexpected_lines_for df column expected) EXPECTED_VALUES)"

text \<open>Lines 139 to 145.\<close>

definition non_numeric_count :: "pandas \<Rightarrow> cell list \<Rightarrow> nat" where
  "non_numeric_count PD cells = length (filter (to_numeric_isna PD) cells)"

definition msrp_line :: "nat \<Rightarrow> string" where
  "msrp_line n =
     ''- '' @ [CHR 0x27] @ ''msrp'' @ [CHR 0x27] @ '' contains '' @ str_nat n @ '' non-numeric values''"

definition msrp_lines :: "pandas \<Rightarrow> dataframe \<Rightarrow> string list" where
  "msrp_lines PD df =
     (if ''msrp'' \<in> set (df_columns df)
      then let n = non_numeric_count PD (column_values df ''msrp'') in
        if n \<noteq> 0 then [msrp_line n] else []
      else [])"

text \<open>Lines 147 to 150.\<close>

definition model_year_line :: string where
  "model_year_line = ''- '' @ [CHR 0x27] @ ''model_year'' @ [CHR 0x27] @ '' includes non-numeric entries''"

definition model_year_lines :: "pandas \<Rightarrow> dataframe \<Rightarrow> string list" where
  "model_year_lines PD df =
     (if ''model_year'' \<in> set (df_columns df)
      then if non_numeric_count PD (column_values df ''model_year'') \<noteq> 0
        then [model_year_line]
        else []
      else [])"

text \<open>Lines 85 to 150: \<open>report_lines\<close> once every check has run.\<close>

definition report_lines :: "pandas \<Rightarrow> dataframe \<Rightarrow> string list" where
  "report_lines PD df =
     header_lines df @ duplicate_lines df @ null_lines df @ mixed_type_lines df @
     string_issue_lines PD df @ unexpected_value_lines df @ msrp_lines PD df @
     model_year_lines PD df"

section \<open>The diagnoser: loading the table and writing the report\<close>

text \<open>
  A module object, as far as the loader looks at it: it has no attribute
  \<open>generate_raw_car_equipment_data\<close>, or it has one, and calling it with no argument
  raises or returns a table.
\<close>

datatype pymodule = NoGenerator | Generator "py_error + dataframe"

text \<open>
  What the diagnoser asks of its host, taken as parameters: \<open>pathlib\<close> on a type
  \<open>'p\<close> of paths (\<open>Path(s)\<close>, \<open>is_absolute\<close>, the operator \<open>/\<close>, \<open>parent\<close>,
  \<open>resolve\<close>, \<open>exists\<close>, \<open>suffix\<close>, \<open>str\<close>), the path \<open>__file__\<close> of the script,
  \<open>os.sep\<close>, \<open>pd.read_csv\<close>, the import machinery
  (\<open>spec_from_file_location\<close> returning a usable spec, the module object built from it
  and executed, \<open>importlib.import_module\<close>), and the formatted UTC time.  Each of the
  routines that can raise returns an error or its result.
\<close>

record 'p host =
  path_of :: "string \<Rightarrow> 'p"
  path_is_absolute :: "'p \<Rightarrow> bool"
  path_join :: "'p \<Rightarrow> 'p \<Rightarrow> 'p"
  path_parent :: "'p \<Rightarrow> 'p"
  path_resolve :: "'p \<Rightarrow> 'p"
  path_exists :: "'p \<Rightarrow> bool"
  path_suffix :: "'p \<Rightarrow> string"
  path_str :: "'p \<Rightarrow> string"
  script_file :: "'p"
  os_sep :: char
  read_csv :: "'p \<Rightarrow> py_error + dataframe"
  spec_usable :: "'p \<Rightarrow> bool"
  exec_module :: "'p \<Rightarrow> py_error + pymodule"
  import_module :: "string \<Rightarrow> py_error + pymodule"
  utcnow_stamp :: string

text \<open>\<open>s.endswith(t)\<close> and \<open>s.lower()\<close> (on ASCII letters).\<close>

definition endswith :: "string \<Rightarrow> string \<Rightarrow> bool" where
  "endswith s t \<longleftrightarrow> length t \<le> length s \<and> drop (length s - length t) s = t"

definition lower_char :: "char \<Rightarrow> char" where
  "lower_char c = (if CHR ''A'' \<le> c \<and> c \<le> CHR ''Z'' then char_of (of_char c + (32::nat)) else c)"

definition lower :: "string \<Rightarrow> string" where
  "lower s = map lower_char s"

text \<open>Lines 20 to 25: the function \<open>_module_name\<close>.\<close>

definition py_module_name :: "'p host \<Rightarrow> string \<Rightarrow> string" where
  "py_module_name H module_path =
     (let name = (if endswith module_path ''.py''
                  then take (length module_path - 3) module_path
                  else module_path)
      in map (\<lambda>c. if c = os_sep H then CHR ''.'' else c) name)"

text \<open>Lines 28 to 47: the function \<open>_resolve_candidate_path\<close>.\<close>

definition candidates :: "'p host \<Rightarrow> string \<Rightarrow> 'p list" where
  "candidates H source =
     (let script_dir = path_parent H (path_resolve H (script_file H));
          input_path = path_of H source
      in if path_is_absolute H input_path then [input_path]
         else [input_path,
               path_join H script_dir input_path,
               path_join H (path_parent H script_dir) input_path])"

definition resolve_candidate_path :: "'p host \<Rightarrow> string \<Rightarrow> 'p option" where
  "resolve_candidate_path H source =
     (case find (path_exists H) (candidates H source) of
        None \<Rightarrow> None
      | Some candidate \<Rightarrow> Some (path_resolve H candidate))"

text \<open>Lines 73 to 79: the entry point is looked up in the module and called.\<close>

fun call_generator :: "pymodule \<Rightarrow> py_error + dataframe" where
  "call_generator NoGenerator = Inl AttributeError"
| "call_generator (Generator outcome) = outcome"

text \<open>Lines 50 to 79: the function \<open>_load_dataframe\<close>.\<close>

definition load_dataframe :: "'p host \<Rightarrow> string \<Rightarrow> py_error + dataframe" where
  "load_dataframe H source =
     (case resolve_candidate_path H source of
        Some resolved_path \<Rightarrow>
          if lower (path_suffix H resolved_path) = ''.csv'' then read_csv H resolved_path
          else if lower (path_suffix H resolved_path) = ''.py'' then
            (if \<not> spec_usable H resolved_path then Inl ImportError
             else case exec_module H resolved_path of
                    Inl e \<Rightarrow> Inl e
                  | Inr loaded \<Rightarrow> call_generator loaded)
          else Inl ValueError
      | None \<Rightarrow>
          (case import_module H (py_module_name H source) of
             Inl e \<Rightarrow> Inl e
           | Inr loaded \<Rightarrow> call_generator loaded))"



section \<open>Notions used to state the properties\<close>

text \<open>A decimal digit.\<close>

definition is_digit :: "char \<Rightarrow> bool" where
  "is_digit c \<longleftrightarrow> CHR ''0'' \<le> c \<and> c \<le> CHR ''9''"

text \<open>
  \<open>yields m P\<close>: from every generator state, the computation \<open>m\<close> returns (it does
  not raise), and its result satisfies \<open>P\<close>.
\<close>

definition yields :: "('s, 'a) rand \<Rightarrow> ('a \<Rightarrow> bool) \<Rightarrow> bool" where
  "yields m P \<longleftrightarrow> (\<forall>s. \<exists>a s'. m s = Inr (a, s') \<and> P a)"

text \<open>
  The shape of a generated \<open>model_year\<close>: a year from 2013 to 2023, as an \<open>int\<close> or
  as the text \<open>str\<close> gives for it.
\<close>

definition year_ok :: "pyval \<Rightarrow> bool" where
  "year_ok v \<longleftrightarrow> (\<exists>y. 2013 \<le> y \<and> y \<le> 2023 \<and> (v = PyInt y \<or> v = PyStr (str_int y)))"

text \<open>
  The marks of \<open>duplicated\<close> when rows are compared by plain equality, and the cells on
  which the comparison of pandas is plain equality: every kind but \<open>float\<close> and
  \<open>bool\<close>.
\<close>

definition earlier_equal :: "'a list \<Rightarrow> bool list" where
  "earlier_equal xs = map (\<lambda>i. xs ! i \<in> set (take i xs)) [0..<length xs]"

fun plain_cell :: "cell \<Rightarrow> bool" where
  "plain_cell (FloatCell f) = False"
| "plain_cell (BoolCell b) = False"
| "plain_cell c = True"



text \<open>What the loop body guarantees of the row it builds for \<open>idx\<close>.\<close>

definition row_ok :: "nat \<Rightarrow> car_row \<Rightarrow> bool" where
  "row_ok idx r \<longleftrightarrow> car_id r = ''C'' @ format_03 (idx + 1) \<and> year_ok (model_year r)"

text \<open>
  The order in which the specification says a source is looked up: the literal path,
  the path relative to the directory of the script, the path relative to the parent of
  that directory.  It is compared with the candidates the code builds.
\<close>

definition resolution_order :: "'p host \<Rightarrow> string \<Rightarrow> 'p list" where
  "resolution_order H source =
     [path_of H source,
      path_join H (path_parent H (path_resolve H (script_file H))) (path_of H source),
      path_join H (path_parent H (path_parent H (path_resolve H (script_file H)))) (path_of H source)]"




section \<open>Concrete inputs\<close>

text \<open>
  A generator to run the model on concrete inputs: its state is a counter, an index
  draw below \<open>n\<close> is the counter modulo \<open>n\<close>, and \<open>random()\<close> is the counter's last
  two decimal digits as hundredths.
\<close>

definition counter_rng :: "nat rng" where
  "counter_rng =
     \<lparr>rng_seed = (\<lambda>seed. nat \<bar>seed\<bar>),
      rng_randbelow = (\<lambda>n s. (s mod n, Suc s)),
      rng_random = (\<lambda>s. (of_nat (s mod 100) / 100, Suc s))\<rparr>"


text \<open>
  Tables and a stand-in for pandas to run the checks on concrete inputs.  The stand-in
  reads a text as a number when it is a non-empty string of decimal digits, and gives
  the dtype \<open>object\<close> to a column that holds a text or a missing value.
\<close>

definition digits_pandas :: pandas where
  "digits_pandas =
     \<lparr>parses_numeric = (\<lambda>s. s \<noteq> [] \<and> list_all is_digit s),
      object_dtype = list_ex (\<lambda>c. case c of StrCell s \<Rightarrow> True | Null \<Rightarrow> True | _ \<Rightarrow> False)\<rparr>"

definition sample_table :: dataframe where
  "sample_table =
     \<lparr>df_columns = [''car_id'', ''model_year'', ''trim_level'', ''exterior_color'', ''msrp''],
      df_rows =
        [[StrCell ''C001'', IntCell 2015, StrCell ''luxary'', Null, StrCell ''N/A''],
         [StrCell ''C002'', StrCell ''2016'', StrCell ''Base'', StrCell ''Red'', IntCell 30000],
         [StrCell ''C003'', StrCell ''n/a'', IntCell 7, Null, Null],
         [StrCell ''C004'', IntCell 2020, StrCell ''Premuim'', StrCell ''Blue'', StrCell ''$45,000'']]\<rparr>"

definition clean_table :: dataframe where
  "clean_table =
     \<lparr>df_columns = [''car_id'', ''model_year'', ''trim_level'', ''msrp''],
      df_rows =
        [[StrCell ''C001'', IntCell 2015, StrCell ''Sport'', IntCell 22000],
         [StrCell ''C002'', StrCell ''2016'', StrCell ''Base'', IntCell 30000]]\<rparr>"

text \<open>
  A small host to run the loader on concrete inputs.  Paths are strings with \<open>/\<close> as
  separator; the working directory is \<open>/work\<close> and holds nothing; the script is
  \<open>/repo/data_diagnosis/diagnose_data.py\<close>; under \<open>/repo\<close> there are the generator
  script, a second script without the entry point, a CSV file that reads as
  \<open>clean_table\<close>, an empty CSV file on which \<open>read_csv\<close> raises, and a text file.
  Both \<open>data_generation\<close> and \<open>helpers\<close> can also be imported by name.
\<close>

definition sample_files :: "string list" where
  "sample_files =
     [''/repo/data_diagnosis/diagnose_data.py'', ''/repo/data_generation.py'',
      ''/repo/helpers.py'', ''/repo/clean.csv'', ''/repo/empty.csv'', ''/repo/notes.txt'']"

definition sample_is_absolute :: "string \<Rightarrow> bool" where
  "sample_is_absolute p \<longleftrightarrow> (case p of [] \<Rightarrow> False | c # cs \<Rightarrow> c = CHR ''/'')"

definition sample_parent :: "string \<Rightarrow> string" where
  "sample_parent p = rev (drop 1 (dropWhile (\<lambda>c. c \<noteq> CHR ''/'') (rev p)))"

definition sample_suffix :: "string \<Rightarrow> string" where
  "sample_suffix p =
     (let name = rev (takeWhile (\<lambda>c. c \<noteq> CHR ''/'') (rev p))
      in if CHR ''.'' \<in> set name then CHR ''.'' # rev (takeWhile (\<lambda>c. c \<noteq> CHR ''.'') (rev name))
         else [])"

definition module_name_of_file :: "string \<Rightarrow> string" where
  "module_name_of_file p =
     (let name = rev (takeWhile (\<lambda>c. c \<noteq> CHR ''/'') (rev p))
      in rev (drop 1 (dropWhile (\<lambda>c. c \<noteq> CHR ''.'') (rev name))))"

definition sample_module :: "string \<Rightarrow> py_error + pymodule" where
  "sample_module name =
     (if name = ''data_generation''
      then Inr (Generator (generate_raw_car_equipment_data counter_rng 30 7))
      else if name = ''helpers'' then Inr NoGenerator
      else Inl (LibraryError ''ModuleNotFoundError''))"

definition sample_host :: "string host" where
  "sample_host =
     \<lparr>path_of = (\<lambda>s. s),
      path_is_absolute = sample_is_absolute,
      path_join = (\<lambda>p q. if sample_is_absolute q then q else p @ ''/'' @ q),
      path_parent = sample_parent,
      path_resolve = (\<lambda>p. if sample_is_absolute p then p else ''/work/'' @ p),
      path_exists = (\<lambda>p. sample_is_absolute p \<and> p \<in> set sample_files),
      path_suffix = sample_suffix,
      path_str = (\<lambda>p. p),
      script_file = ''/repo/data_diagnosis/diagnose_data.py'',
      os_sep = CHR ''/'',
      read_csv = (\<lambda>p. if p = ''/repo/clean.csv'' then Inr clean_table
                       else Inl (LibraryError ''EmptyDataError'')),
      spec_usable = (\<lambda>p. True),
      exec_module = (\<lambda>p. sample_module (module_name_of_file p)),
      import_module = sample_module,
      utcnow_stamp = ''20240101_000000''\<rparr>"


section \<open>Properties of the generator\<close>

subsection \<open>Decimal rendering is injective\<close>

lemma digit_val_digit_char: "d < 10 \<Longrightarrow> digit_val (digit_char d) = d"
  by (simp add: digit_val_def digit_char_def)

lemma digits_val_snoc: "digits_val (s @ [c]) = 10 * digits_val s + digit_val c"
  by (simp add: digits_val_def)

lemma digits_val_str_nat: "digits_val (str_nat n) = n"
proof (induction n rule: str_nat.induct)
  case (1 n)
  show ?case
  proof (cases "n < 10")
    case True
    then show ?thesis
      by (simp add: str_nat.simps [of n] digits_val_def digit_val_digit_char)
  next
    case False
    with "1" show ?thesis
      by (simp add: str_nat.simps [of n] digits_val_snoc digit_val_digit_char)
  qed
qed

lemma digits_val_zeros: "digits_val (replicate k CHR ''0'' @ s) = digits_val s"
proof -
  have "foldl (\<lambda>a c. 10 * a + digit_val c) 0 (replicate k CHR ''0'') = 0"
    by (induction k) (simp_all add: digit_val_def)
  then show ?thesis by (simp add: digits_val_def)
qed

lemma digits_val_format_03: "digits_val (format_03 n) = n"
  by (simp add: format_03_def zfill_def digits_val_zeros digits_val_str_nat)

lemma format_03_inj: "format_03 m = format_03 n \<Longrightarrow> m = n"
  by (metis digits_val_format_03)


lemma is_digit_digit_char: "d < 10 \<Longrightarrow> is_digit (digit_char d)"
  by (simp add: is_digit_def digit_char_def less_eq_char_def)

lemma str_nat_digits: "str_nat n \<noteq> [] \<and> list_all is_digit (str_nat n)"
proof (induction n rule: str_nat.induct)
  case (1 n)
  show ?case
  proof (cases "n < 10")
    case True
    then show ?thesis
      by (simp add: str_nat.simps [of n] is_digit_digit_char)
  next
    case False
    with "1" show ?thesis
      by (simp add: str_nat.simps [of n] is_digit_digit_char)
  qed
qed

lemma yields_returnR: "P a \<Longrightarrow> yields (returnR a) P"
  by (simp add: yields_def returnR_def)

lemma yields_bindR:
  assumes "yields m Q" and "\<And>a. Q a \<Longrightarrow> yields (f a) P"
  shows "yields (bindR m f) P"
  unfolding yields_def
proof
  fix s
  from assms(1) obtain a s' where m: "m s = Inr (a, s')" and q: "Q a"
    unfolding yields_def by blast
  from assms(2) [OF q] obtain b s'' where "f a s' = Inr (b, s'')" and "P b"
    unfolding yields_def by blast
  with m show "\<exists>b t. bindR m f s = Inr (b, t) \<and> P b"
    by (simp add: bindR_def)
qed

lemma yields_weaken: "yields m P \<Longrightarrow> (\<And>a. P a \<Longrightarrow> Q a) \<Longrightarrow> yields m Q"
  unfolding yields_def by blast

lemma yields_if: "(c \<Longrightarrow> yields m P) \<Longrightarrow> (\<not> c \<Longrightarrow> yields n P) \<Longrightarrow> yields (if c then m else n) P"
  by simp

lemma yields_random_draw: "yields (random_draw R) (\<lambda>u. True)"
  by (simp add: yields_def random_draw_def prod_eq_iff)

lemma yields_choice:
  assumes "rng_wf R" and "xs \<noteq> []"
  shows "yields (choice R xs) (\<lambda>x. x \<in> set xs)"
  unfolding yields_def
proof
  fix s
  obtain i s' where d: "rng_randbelow R (length xs) s = (i, s')"
    by (cases "rng_randbelow R (length xs) s")
  from assms have "fst (rng_randbelow R (length xs) s) < length xs"
    by (simp add: rng_wf_def)
  with d have "i < length xs" by simp
  with d assms(2) show "\<exists>a t. choice R xs s = Inr (a, t) \<and> a \<in> set xs"
    by (simp add: choice_def)
qed

lemma yields_randrange:
  assumes "0 < (stop - start + step - 1) div step"
  shows "yields (randrange R start stop step) (\<lambda>v. True)"
  using assms by (simp add: yields_def randrange_def Let_def split: prod.split)

lemma yields_lookup_models:
  "mk \<in> set (map fst models_by_make) \<Longrightarrow> yields (lookup_models mk) (\<lambda>ms. ms \<noteq> [])"
  by (auto simp: lookup_models_def models_by_make_def yields_returnR)


lemma yields_draw_row:
  assumes wf: "rng_wf R"
  shows "yields (draw_row R idx)
           (\<lambda>(row, price). car_id row = ''C'' @ format_03 (idx + 1) \<and>
              (\<exists>y. 2013 \<le> y \<and> y \<le> 2023 \<and> model_year row = PyInt y))"
  unfolding draw_row_def
  apply (rule yields_bindR [OF yields_choice [OF wf]])
   apply (simp add: models_by_make_def)
  apply (rule yields_bindR [OF yields_lookup_models], assumption)
  apply (rule yields_bindR [OF yields_choice [OF wf]], assumption)
  apply (rule yields_bindR [OF yields_randrange])
   apply simp
  apply (rule yields_bindR [OF yields_choice [OF wf]])
   apply simp
  apply (rule yields_bindR [OF yields_choice [OF wf]])
   apply (simp add: trims_def)
  apply (rule yields_bindR [OF yields_choice [OF wf]])
   apply (simp add: colors_def)
  apply (rule yields_bindR [OF yields_choice [OF wf]])
   apply (simp add: transmissions_def)
  apply (rule yields_bindR [OF yields_choice [OF wf]])
   apply (simp add: fuels_def)
  apply (rule yields_bindR [OF yields_choice [OF wf]])
   apply (simp add: infotainment_def)
  apply (rule yields_returnR)
  apply auto
  done

lemma yields_inject_issues:
  assumes wf: "rng_wf R"
  shows "yields (inject_issues R price row)
           (\<lambda>r. car_id r = car_id row \<and>
              (model_year r = model_year row \<or> model_year r = PyStr (py_str (model_year row))))"
  unfolding inject_issues_def
  apply (rule yields_bindR [OF yields_random_draw])
  apply (rule yields_bindR [where Q = "\<lambda>r. car_id r = car_id row \<and> model_year r = model_year row"])
   apply (rule yields_returnR, simp)
  apply (rule yields_bindR [OF yields_random_draw])
  apply (rule yields_bindR [where Q = "\<lambda>r. car_id r = car_id row \<and> model_year r = model_year row"])
   apply (rule yields_returnR, simp)
  apply (rule yields_bindR [OF yields_random_draw])
  apply (rule yields_bindR [where Q = "\<lambda>r. car_id r = car_id row \<and>
              (model_year r = model_year row \<or> model_year r = PyStr (py_str (model_year row)))"])
   apply (rule yields_returnR, simp)
  apply (rule yields_bindR [OF yields_random_draw])
  apply (rule yields_bindR [where Q = "\<lambda>r. car_id r = car_id row \<and>
              (model_year r = model_year row \<or> model_year r = PyStr (py_str (model_year row)))"])
   apply (rule yields_returnR, simp)
  apply (rule yields_bindR [OF yields_random_draw])
  apply (rule yields_bindR [where Q = "\<lambda>r. car_id r = car_id row \<and>
              (model_year r = model_year row \<or> model_year r = PyStr (py_str (model_year row)))"])
   apply (rule yields_returnR, simp)
  apply (rule yields_bindR [OF yields_random_draw])
  apply (rule yields_bindR [where Q = "\<lambda>r. car_id r = car_id row \<and>
              (model_year r = model_year row \<or> model_year r = PyStr (py_str (model_year row)))"])
   apply (rule yields_if)
    apply (rule yields_bindR [OF yields_choice [OF wf]], simp)
    apply (rule yields_returnR, simp)
   apply (rule yields_returnR, simp)
  apply (rule yields_bindR [OF yields_random_draw])
  apply (rule yields_bindR [where Q = "\<lambda>r. car_id r = car_id row \<and>
              (model_year r = model_year row \<or> model_year r = PyStr (py_str (model_year row)))"])
   apply (rule yields_if)
    apply (rule yields_bindR [OF yields_choice [OF wf]], simp)
    apply (rule yields_returnR, simp)
   apply (rule yields_returnR, simp)
  apply (rule yields_bindR [OF yields_random_draw])
  apply (rule yields_bindR [where Q = "\<lambda>r. car_id r = car_id row \<and>
              (model_year r = model_year row \<or> model_year r = PyStr (py_str (model_year row)))"])
   apply (rule yields_if)
    apply (rule yields_bindR [OF yields_choice [OF wf]], simp)
    apply (rule yields_returnR, simp)
   apply (rule yields_returnR, simp)
  apply (rule yields_bindR [OF yields_random_draw])
  apply (rule yields_returnR, simp)
  done


lemma yields_build_row:
  assumes wf: "rng_wf R"
  shows "yields (build_row R idx) (row_ok idx)"
  unfolding build_row_def
  apply (rule yields_bindR [OF yields_draw_row [OF wf]])
  apply (clarsimp simp del: ex_simps)
  apply (rule yields_weaken [OF yields_inject_issues [OF wf]])
  apply (auto simp: row_ok_def year_ok_def)
  done

lemma build_rows_result:
  assumes wf: "rng_wf R"
  shows "\<exists>new s'. build_rows R idxs data s = Inr (data @ new, s') \<and> list_all2 row_ok idxs new"
proof (induction idxs arbitrary: data s)
  case Nil
  then show ?case by (simp add: returnR_def)
next
  case (Cons idx idxs)
  from yields_build_row [OF wf, of idx] obtain row s1
    where b: "build_row R idx s = Inr (row, s1)" and ok: "row_ok idx row"
    unfolding yields_def by blast
  from Cons.IH [of "data @ [row]" s1] obtain new s'
    where r: "build_rows R idxs (data @ [row]) s1 = Inr ((data @ [row]) @ new, s')"
      and l: "list_all2 row_ok idxs new"
    by blast
  have "build_rows R (idx # idxs) data s = Inr (data @ (row # new), s')"
    using b r by (simp add: bindR_def)
  moreover have "list_all2 row_ok (idx # idxs) (row # new)"
    using ok l by simp
  ultimately show ?case by blast
qed

lemma add_duplicates_result:
  assumes wf: "rng_wf R" and ne: "data \<noteq> []"
  shows "\<exists>dups s'. add_duplicates R n data s = Inr (data @ dups, s') \<and>
           length dups = n \<and> set dups \<subseteq> set data"
  using ne
proof (induction n arbitrary: data s)
  case 0
  then show ?case by (simp add: returnR_def)
next
  case (Suc n)
  from yields_choice [OF wf Suc.prems] obtain d s1
    where c: "choice R data s = Inr (d, s1)" and d: "d \<in> set data"
    unfolding yields_def by blast
  have "data @ [d] \<noteq> []" by simp
  from Suc.IH [OF this, of s1] obtain dups s'
    where r: "add_duplicates R n (data @ [d]) s1 = Inr ((data @ [d]) @ dups, s')"
      and l: "length dups = n" and sub: "set dups \<subseteq> set (data @ [d])"
    by blast
  have "add_duplicates R (Suc n) data s = Inr (data @ (d # dups), s')"
    using c r by (simp add: bindR_def)
  moreover have "length (d # dups) = Suc n" using l by simp
  moreover have "set (d # dups) \<subseteq> set data" using d sub by auto
  ultimately show ?case by blast
qed

lemma add_duplicates_empty: "add_duplicates R (Suc n) [] s = Inl IndexError"
  by (simp add: bindR_def choice_def)

lemma shuffle_loop_result:
  assumes wf: "rng_wf R"
  shows "\<forall>i \<in> set is. i < length x \<Longrightarrow>
         \<exists>x' s'. shuffle_loop R is x s = Inr (x', s') \<and> mset x' = mset x"
proof (induction "is" arbitrary: x s)
  case Nil
  then show ?case by (simp add: returnR_def)
next
  case (Cons i "is")
  obtain j s1 where d: "rng_randbelow R (i + 1) s = (j, s1)"
    by (cases "rng_randbelow R (i + 1) s")
  from wf have "fst (rng_randbelow R (i + 1) s) < i + 1"
    by (simp add: rng_wf_def)
  with d have j: "j \<le> i" by simp
  from Cons.prems have i: "i < length x" by simp
  let ?y = "x[i := x ! j, j := x ! i]"
  have m: "mset ?y = mset x"
    using i j by (simp add: mset_swap)
  have "\<forall>k \<in> set is. k < length ?y" using Cons.prems by simp
  from Cons.IH [OF this, of s1] obtain x' s'
    where r: "shuffle_loop R is ?y s1 = Inr (x', s')" and m': "mset x' = mset ?y"
    by blast
  have "shuffle_loop R (i # is) x s = Inr (x', s')"
    using d i j r by simp
  with m m' show ?case by simp
qed

lemma shuffle_result:
  assumes wf: "rng_wf R"
  shows "\<exists>x' s'. shuffle R x s = Inr (x', s') \<and> mset x' = mset x"
  unfolding shuffle_def
  by (rule shuffle_loop_result [OF wf]) simp

lemma generate_data_structure:
  assumes wf: "rng_wf R" and rows: "3 \<le> rows"
  shows "\<exists>data base dups.
           generate_data R rows seed = Inr data \<and>
           mset data = mset (base @ dups) \<and>
           list_all2 row_ok [0..<nat (base_rows rows)] base \<and>
           length dups = nat (duplicate_rows_needed rows) \<and>
           set dups \<subseteq> set base"
proof -
  let ?s0 = "rng_seed R seed"
  from build_rows_result [OF wf, of "[0..<nat (base_rows rows)]" "[]" ?s0]
  obtain base s1 where b: "build_rows R [0..<nat (base_rows rows)] [] ?s0 = Inr (base, s1)"
    and ok: "list_all2 row_ok [0..<nat (base_rows rows)] base"
    by auto
  have "0 < base_rows rows"
    using rows unfolding base_rows_def duplicate_rows_needed_def by arith
  moreover have "length base = nat (base_rows rows)"
    using list_all2_lengthD [OF ok] by simp
  ultimately have "0 < length base" by simp
  then have ne: "base \<noteq> []" by simp
  from add_duplicates_result [OF wf ne, of "nat (duplicate_rows_needed rows)" s1]
  obtain dups s2
    where d: "add_duplicates R (nat (duplicate_rows_needed rows)) base s1 = Inr (base @ dups, s2)"
      and l: "length dups = nat (duplicate_rows_needed rows)" and sub: "set dups \<subseteq> set base"
    by blast
  from shuffle_result [OF wf, of "base @ dups" s2]
  obtain data s3 where sh: "shuffle R (base @ dups) s2 = Inr (data, s3)"
    and m: "mset data = mset (base @ dups)"
    by blast
  have "generate_data R rows seed = Inr data"
    using b d sh by (simp add: generate_data_def bindR_def)
  with m ok l sub show ?thesis by blast
qed

lemma generate_data_small:
  assumes "rows \<le> 2"
  shows "generate_data R rows seed = Inl IndexError"
proof -
  have "base_rows rows \<le> 0"
    using assms unfolding base_rows_def duplicate_rows_needed_def by arith
  then have b: "nat (base_rows rows) = 0" by simp
  have "nat (duplicate_rows_needed rows) = Suc (nat (duplicate_rows_needed rows) - 1)"
    by (simp add: duplicate_rows_needed_def max_def)
  then obtain n where d: "nat (duplicate_rows_needed rows) = Suc n" ..
  show ?thesis
    by (simp add: generate_data_def b d bindR_def returnR_def choice_def)
qed

lemma row_ok_car_id_inj:
  assumes "list_all2 row_ok idxs base" and "distinct idxs"
  shows "distinct (map car_id base)"
  using assms
proof (induction idxs base rule: list_all2_induct)
  case Nil
  then show ?case by simp
next
  case (Cons i idxs r base)
  have "car_id r \<notin> car_id ` set base"
  proof
    assume "car_id r \<in> car_id ` set base"
    then obtain r' where r': "r' \<in> set base" and eq: "car_id r = car_id r'" by blast
    from r' obtain k where k: "k < length base" and rk: "base ! k = r'"
      by (auto simp: in_set_conv_nth)
    define i' where "i' = idxs ! k"
    have len: "length idxs = length base"
      using Cons.hyps(2) by (rule list_all2_lengthD)
    have i': "i' \<in> set idxs"
      using k len by (simp add: i'_def)
    have ok: "row_ok i' r'"
      using list_all2_nthD2 [OF Cons.hyps(2) k] rk by (simp add: i'_def)
    from Cons.hyps(1) ok eq have "format_03 (i + 1) = format_03 (i' + 1)"
      by (simp add: row_ok_def)
    then have "i = i'" using format_03_inj by fastforce
    with i' Cons.prems show False by simp
  qed
  with Cons show ?case by simp
qed

lemma earlier_equal_snoc: "earlier_equal (xs @ [x]) = earlier_equal xs @ [x \<in> set xs]"
  by (simp add: earlier_equal_def nth_append)

lemma count_earlier_equal:
  "length (filter (\<lambda>b. b) (earlier_equal xs)) = length xs - card (set xs)"
proof (induction xs rule: rev_induct)
  case Nil
  then show ?case by (simp add: earlier_equal_def)
next
  case (snoc x xs)
  have le: "card (set xs) \<le> length xs" by (rule card_length)
  show ?case
  proof (cases "x \<in> set xs")
    case True
    then have "insert x (set xs) = set xs" by auto
    with snoc True le show ?thesis by (simp add: earlier_equal_snoc)
  next
    case False
    with snoc le show ?thesis by (simp add: earlier_equal_snoc)
  qed
qed

lemma cell_equal_plain: "plain_cell a \<Longrightarrow> plain_cell b \<Longrightarrow> cell_equal a b \<longleftrightarrow> a = b"
  by (cases a; cases b) (simp_all add: cell_equal_def)

lemma row_equal_plain:
  "list_all plain_cell r \<Longrightarrow> list_all plain_cell r' \<Longrightarrow> row_equal r r' \<longleftrightarrow> r = r'"
proof (induction r arbitrary: r')
  case Nil
  then show ?case by (auto simp: row_equal_def)
next
  case (Cons c r)
  show ?case
  proof (cases r')
    case Nil
    then show ?thesis by (auto simp: row_equal_def)
  next
    case (Cons c' r'')
    with Cons.prems have "plain_cell c" "plain_cell c'" "list_all plain_cell r"
      "list_all plain_cell r''"
      by simp_all
    with Cons.IH [of r''] Cons show ?thesis
      by (simp add: row_equal_def cell_equal_plain)
  qed
qed

lemma duplicated_plain:
  assumes "\<forall>r \<in> set rows. list_all plain_cell r"
  shows "duplicated rows = earlier_equal rows"
  unfolding duplicated_def earlier_equal_def
proof (rule map_cong [OF refl])
  fix i
  assume "i \<in> set [0..<length rows]"
  then have i: "i < length rows" by simp
  have p: "list_all plain_cell (rows ! i)"
    using assms i by simp
  have "\<And>r. r \<in> set (take i rows) \<Longrightarrow> row_equal r (rows ! i) \<longleftrightarrow> r = rows ! i"
  proof -
    fix r
    assume "r \<in> set (take i rows)"
    then have "r \<in> set rows" by (rule in_set_takeD)
    with assms have "list_all plain_cell r" by simp
    then show "row_equal r (rows ! i) \<longleftrightarrow> r = rows ! i"
      using p by (rule row_equal_plain)
  qed
  then show "list_ex (\<lambda>r. row_equal r (rows ! i)) (take i rows) \<longleftrightarrow>
             rows ! i \<in> set (take i rows)"
    unfolding list_ex_iff by auto
qed

lemma plain_cell_of_pyval: "plain_cell (cell_of_pyval v)"
  by (cases v) simp_all

lemma plain_cell_of_opt: "plain_cell (cell_of_opt v)"
  by (cases v) simp_all

lemma plain_row_cells: "list_all plain_cell (row_cells r)"
  by (simp add: row_cells_def plain_cell_of_pyval plain_cell_of_opt)

lemma duplicated_row_cells: "duplicated (map row_cells data) = earlier_equal (map row_cells data)"
  by (rule duplicated_plain) (simp add: plain_row_cells)

lemma rng_wf_counter_rng: "rng_wf counter_rng"
  by (simp add: rng_wf_def counter_rng_def)


lemma cell_of_pyval_inj: "cell_of_pyval a = cell_of_pyval b \<Longrightarrow> a = b"
  by (cases a; cases b) simp_all

lemma cell_of_opt_inj: "cell_of_opt a = cell_of_opt b \<Longrightarrow> a = b"
  by (cases a; cases b) simp_all

lemma row_cells_inj: "row_cells r = row_cells r' \<Longrightarrow> r = r'"
  by (rule car_row.equality) (auto simp: row_cells_def dest: cell_of_pyval_inj cell_of_opt_inj)

lemma inj_row_cells: "inj row_cells"
  by (rule injI) (rule row_cells_inj)

lemma df_rows_DataFrame: "df_rows (DataFrame data) = map row_cells data"
  by (simp add: DataFrame_def)

lemma car_id_column: "column_values (DataFrame data) ''car_id'' = map (\<lambda>r. StrCell (car_id r)) data"
  by (simp add: DataFrame_def column_values_def row_keys_def row_cells_def)

lemma model_year_column:
  "column_values (DataFrame data) ''model_year'' = map (\<lambda>r. cell_of_pyval (model_year r)) data"
  by (simp add: DataFrame_def column_values_def row_keys_def row_cells_def)

lemma generated_table:
  assumes wf: "rng_wf R" and rows: "3 \<le> rows"
  shows "\<exists>data base dups.
           generate_raw_car_equipment_data R rows seed = Inr (DataFrame data) \<and>
           data \<noteq> [] \<and>
           mset data = mset (base @ dups) \<and>
           list_all2 row_ok [0..<nat (base_rows rows)] base \<and>
           distinct (map car_id base) \<and>
           length dups = nat (duplicate_rows_needed rows) \<and>
           set dups \<subseteq> set base"
proof -
  from generate_data_structure [OF wf rows, of seed] obtain data base dups
    where g: "generate_data R rows seed = Inr data"
      and m: "mset data = mset (base @ dups)"
      and ok: "list_all2 row_ok [0..<nat (base_rows rows)] base"
      and l: "length dups = nat (duplicate_rows_needed rows)"
      and sub: "set dups \<subseteq> set base"
    by blast
  have "0 < duplicate_rows_needed rows"
    by (simp add: duplicate_rows_needed_def)
  with l have "dups \<noteq> []" by auto
  with m have ne: "data \<noteq> []" by auto
  have d: "distinct (map car_id base)"
    using ok by (rule row_ok_car_id_inj) simp
  have "generate_raw_car_equipment_data R rows seed = Inr (DataFrame data)"
    using g by (simp add: generate_raw_car_equipment_data_def)
  with ne m ok d l sub show ?thesis by blast
qed

lemma generated_row_count:
  assumes "3 \<le> rows"
    and "length base = nat (base_rows rows)"
    and "length dups = nat (duplicate_rows_needed rows)"
  shows "int (length base + length dups) = rows"
proof -
  have "0 < base_rows rows"
    using assms(1) unfolding base_rows_def duplicate_rows_needed_def by arith
  moreover have "0 < duplicate_rows_needed rows"
    by (simp add: duplicate_rows_needed_def)
  ultimately show ?thesis
    using assms(2,3) by (simp add: base_rows_def)
qed

lemma distinct_of_car_id: "distinct (map car_id base) \<Longrightarrow> distinct base"
  by (rule distinct_map [THEN iffD1, THEN conjunct1])

lemma generated_duplicate_count:
  assumes m: "mset data = mset (base @ dups)" and d: "distinct (map car_id base)"
    and sub: "set dups \<subseteq> set base"
  shows "duplicate_count (DataFrame data) = length dups"
proof -
  have s: "set data = set base"
    using mset_eq_setD [OF m] sub by auto
  have "card (row_cells ` set data) = card (row_cells ` set base)"
    using s by simp
  also have "\<dots> = card (set base)"
    by (rule card_image) (rule inj_on_subset [OF inj_row_cells], simp)
  also have "\<dots> = length base"
    using distinct_of_car_id [OF d] by (rule distinct_card)
  finally have c: "card (row_cells ` set data) = length base" .
  have "length data = length base + length dups"
    using mset_eq_length [OF m] by simp
  then show ?thesis
    by (simp add: duplicate_count_def df_rows_DataFrame duplicated_row_cells count_earlier_equal c)
qed

lemma row_ok_car_ids:
  "list_all2 row_ok idxs base \<Longrightarrow> map car_id base = map (\<lambda>i. ''C'' @ format_03 (i + 1)) idxs"
  by (induction idxs base rule: list_all2_induct) (simp_all add: row_ok_def)

lemma generated_car_ids:
  assumes m: "mset data = mset (base @ dups)" and sub: "set dups \<subseteq> set base"
    and ok: "list_all2 row_ok [0..<n] base"
  shows "set (column_values (DataFrame data) ''car_id'') =
           (\<lambda>i. StrCell (''C'' @ format_03 (i + 1))) ` {0..<n}"
proof -
  have s: "set data = set base"
    using mset_eq_setD [OF m] sub by auto
  have "car_id ` set base = set (map car_id base)" by simp
  also have "\<dots> = (\<lambda>i. ''C'' @ format_03 (i + 1)) ` {0..<n}"
    using row_ok_car_ids [OF ok] by simp
  finally have c: "car_id ` set base = (\<lambda>i. ''C'' @ format_03 (i + 1)) ` {0..<n}" .
  have "set (column_values (DataFrame data) ''car_id'') = StrCell ` car_id ` set base"
    using s by (simp add: car_id_column image_image)
  with c show ?thesis by (simp add: image_image)
qed

lemma car_id_cells_inj: "inj (\<lambda>i. StrCell (''C'' @ format_03 (i + 1)))"
  by (rule injI) (auto dest: format_03_inj)

lemma generated_same_car_id:
  assumes m: "mset data = mset (base @ dups)" and sub: "set dups \<subseteq> set base"
    and d: "distinct (map car_id base)"
    and i: "i < length data" and j: "j < length data"
    and eq: "column_values (DataFrame data) ''car_id'' ! i =
             column_values (DataFrame data) ''car_id'' ! j"
  shows "df_rows (DataFrame data) ! i = df_rows (DataFrame data) ! j"
proof -
  have s: "set data = set base"
    using mset_eq_setD [OF m] sub by auto
  have inj: "inj_on car_id (set base)"
    using d by (simp only: distinct_map)
  have "map (\<lambda>r. StrCell (car_id r)) data ! i = map (\<lambda>r. StrCell (car_id r)) data ! j"
    using eq by (simp only: car_id_column)
  then have "StrCell (car_id (data ! i)) = StrCell (car_id (data ! j))"
    using i j by (simp only: nth_map)
  then have c: "car_id (data ! i) = car_id (data ! j)"
    by (simp only: cell.inject)
  have mi: "data ! i \<in> set base"
    using s nth_mem [OF i] by (simp only:)
  have mj: "data ! j \<in> set base"
    using s nth_mem [OF j] by (simp only:)
  have e: "data ! i = data ! j"
    using inj c mi mj by (rule inj_onD)
  have "map row_cells data ! i = map row_cells data ! j"
    using i j e by (simp only: nth_map)
  then show ?thesis
    by (simp only: df_rows_DataFrame)
qed

subsection \<open>The table depends on the generator only through the values drawn\<close>






















section \<open>Properties of the checks\<close>

lemma length_filter_isna: "length (filter isna cells) = count_list cells Null"
proof (induction cells)
  case Nil
  then show ?case by simp
next
  case (Cons c cells)
  then show ?case by (cases c) simp_all
qed

lemma isna_iff: "isna c \<longleftrightarrow> c = Null"
  by (cases c) simp_all

lemma null_columns_eq:
  "null_columns df =
     map (\<lambda>col. col @ '' ('' @ str_nat (count_list (column_values df col) Null) @ '')'')
       (filter (\<lambda>col. 0 < count_list (column_values df col) Null) (df_columns df))"
  by (simp add: null_columns_def null_counts_def filter_map comp_def length_filter_isna)

lemma null_columns_empty_iff:
  "null_columns df = [] \<longleftrightarrow> (\<forall>col \<in> set (df_columns df). Null \<notin> set (column_values df col))"
  by (simp add: null_columns_eq filter_empty_conv count_list_0_iff)

lemma report_lines_nth_4: "report_lines PD df ! 4 = hd (null_lines df)"
  by (simp add: report_lines_def header_lines_def duplicate_lines_def null_lines_def)


lemma str_nat_hd: "\<exists>d ds. str_nat n = d # ds \<and> is_digit d"
proof -
  from str_nat_digits [of n] obtain d ds where "str_nat n = d # ds"
    by (cases "str_nat n") auto
  with str_nat_digits [of n] show ?thesis by auto
qed

lemma not_digit_quote: "\<not> is_digit (CHR 0x27)"
  by (simp add: is_digit_def less_eq_char_def)

lemma header_no_quote: "l \<in> set (header_lines df) \<Longrightarrow> l ! 2 \<noteq> CHR 0x27"
  by (auto simp: header_lines_def)

lemma duplicate_no_quote: "l \<in> set (duplicate_lines df) \<Longrightarrow> l ! 2 \<noteq> CHR 0x27"
  by (auto simp: duplicate_lines_def)

lemma null_no_quote: "l \<in> set (null_lines df) \<Longrightarrow> l ! 2 \<noteq> CHR 0x27"
  by (auto simp: null_lines_def split: if_splits)

lemma mixed_no_quote: "l \<in> set (mixed_type_lines df) \<Longrightarrow> l ! 2 \<noteq> CHR 0x27"
  by (auto simp: mixed_type_lines_def Let_def split: if_splits)

lemma string_issue_no_quote: "l \<in> set (string_issue_lines PD df) \<Longrightarrow> l ! 2 \<noteq> CHR 0x27"
proof -
  assume "l \<in> set (string_issue_lines PD df)"
  then obtain column count description
    where l: "l = ''- '' @ str_nat count @ '' values in '' @ [CHR 0x27] @ column @ [CHR 0x27] @
        '' have '' @ description"
    by (auto simp: string_issue_lines_def)
  from str_nat_hd [of count] obtain d ds where s: "str_nat count = d # ds" and d: "is_digit d"
    by blast
  have "l ! 2 = d" by (simp add: l s)
  with d not_digit_quote show ?thesis by auto
qed

lemma unexpected_no_quote: "l \<in> set (unexpected_value_lines df) \<Longrightarrow> l ! 2 \<noteq> CHR 0x27"
  by (auto simp: unexpected_value_lines_def unexpected_lines_for_def Let_def split: if_splits)

lemma msrp_line_nth: "msrp_line n ! 2 = CHR 0x27" "msrp_line n ! 4 = CHR ''s''"
  by (simp_all add: msrp_line_def)

lemma model_year_line_nth: "model_year_line ! 2 = CHR 0x27" "model_year_line ! 4 = CHR ''o''"
  by (simp_all add: model_year_line_def)

lemma model_year_line_neq: "model_year_line \<noteq> msrp_line n"
proof
  assume "model_year_line = msrp_line n"
  then have "model_year_line ! 4 = msrp_line n ! 4" by simp
  then show False by (simp add: msrp_line_nth model_year_line_nth)
qed


lemma quote_line_in_report:
  assumes "l ! 2 = CHR 0x27"
  shows "l \<in> set (report_lines PD df) \<longleftrightarrow>
         l \<in> set (msrp_lines PD df) \<or> l \<in> set (model_year_lines PD df)"
  using assms header_no_quote [of l df] duplicate_no_quote [of l df] null_no_quote [of l df]
    mixed_no_quote [of l df] string_issue_no_quote [of l PD df] unexpected_no_quote [of l df]
  by (auto simp: report_lines_def)


lemma model_year_line_in_report:
  "model_year_line \<in> set (report_lines PD df) \<longleftrightarrow>
     ''model_year'' \<in> set (df_columns df) \<and>
     non_numeric_count PD (column_values df ''model_year'') \<noteq> 0"
proof -
  have "model_year_line \<notin> set (msrp_lines PD df)"
    using model_year_line_neq
    by (auto simp: msrp_lines_def Let_def split: if_splits)
  then have "model_year_line \<in> set (report_lines PD df) \<longleftrightarrow>
      model_year_line \<in> set (model_year_lines PD df)"
    using quote_line_in_report [OF model_year_line_nth(1), of PD df] by simp
  also have "\<dots> \<longleftrightarrow> ''model_year'' \<in> set (df_columns df) \<and>
     non_numeric_count PD (column_values df ''model_year'') \<noteq> 0"
    by (simp add: model_year_lines_def)
  finally show ?thesis .
qed

lemma non_numeric_count_pos:
  "non_numeric_count PD cells \<noteq> 0 \<longleftrightarrow> (\<exists>c \<in> set cells. to_numeric_isna PD c)"
  by (simp add: non_numeric_count_def filter_empty_conv)

lemma year_ok_parses:
  assumes "year_ok v" and "\<forall>s. s \<noteq> [] \<and> list_all is_digit s \<longrightarrow> parses_numeric PD s"
  shows "\<not> to_numeric_isna PD (cell_of_pyval v)"
proof -
  from assms(1) obtain y where y: "2013 \<le> y" and v: "v = PyInt y \<or> v = PyStr (str_int y)"
    unfolding year_ok_def by blast
  have "str_int y = str_nat (nat y)"
    using y by (simp add: str_int_def)
  then have "parses_numeric PD (str_int y)"
    using assms(2) str_nat_digits [of "nat y"] by simp
  with v show ?thesis by auto
qed

lemma row_ok_members:
  assumes "list_all2 row_ok idxs base" and "r \<in> set base"
  shows "year_ok (model_year r)"
proof -
  from assms(2) obtain k where k: "k < length base" and r: "base ! k = r"
    by (auto simp: in_set_conv_nth)
  from list_all2_nthD2 [OF assms(1) k] r show ?thesis
    by (simp add: row_ok_def)
qed

lemma generate_returns_from_three:
  assumes "generate_raw_car_equipment_data R rows seed = Inr df"
  shows "3 \<le> rows"
proof (rule ccontr)
  assume "\<not> 3 \<le> rows"
  then have "rows \<le> 2" by simp
  from generate_data_small [OF this, of R seed] assms show False
    by (simp add: generate_raw_car_equipment_data_def)
qed

lemma generated_model_years:
  assumes wf: "rng_wf R" and g: "generate_raw_car_equipment_data R rows seed = Inr df"
  shows "\<exists>data. df = DataFrame data \<and> data \<noteq> [] \<and> (\<forall>r \<in> set data. year_ok (model_year r))"
proof -
  have rows: "3 \<le> rows" using g by (rule generate_returns_from_three)
  from generated_table [OF wf rows, of seed] obtain data base dups
    where g': "generate_raw_car_equipment_data R rows seed = Inr (DataFrame data)"
      and ne: "data \<noteq> []"
      and m: "mset data = mset (base @ dups)"
      and ok: "list_all2 row_ok [0..<nat (base_rows rows)] base"
      and sub: "set dups \<subseteq> set base"
    by blast
  have s: "set data = set base"
    using mset_eq_setD [OF m] sub by auto
  have "\<forall>r \<in> set data. year_ok (model_year r)"
    using s row_ok_members [OF ok] by simp
  moreover have "df = DataFrame data" using g g' by simp
  ultimately show ?thesis using ne by blast
qed

lemma model_year_in_columns: "data \<noteq> [] \<Longrightarrow> ''model_year'' \<in> set (df_columns (DataFrame data))"
  by (simp add: DataFrame_def row_keys_def)

lemma sorted_int_str: "sorted_list_of_set {''int'', ''str''} = [''int'', ''str'']"
  by code_simp

lemma type_name_cell_of_pyval: "type_name (cell_of_pyval v) \<in> {''int'', ''str''}"
  by (cases v) simp_all

lemma dropna_cell_of_pyval: "dropna (map (\<lambda>r. cell_of_pyval (f r)) data) = map (\<lambda>r. cell_of_pyval (f r)) data"
proof -
  have "\<not> isna (cell_of_pyval v)" for v by (cases v) simp_all
  then show ?thesis by (simp add: dropna_def)
qed

lemma mixed_line_member:
  assumes "column \<in> set (df_columns df)"
    and "distinct_types (column_values df column) = {''int'', ''str''}"
  shows "''- Mixed data types in '' @ [CHR 0x27] @ column @ [CHR 0x27] @ '': int, str''
           \<in> set (report_lines PD df)"
proof -
  have c: "card {''int'', ''str''} = 2" by simp
  have j: "join '', '' [''int'', ''str''] = ''int, str''" by simp
  have "''- Mixed data types in '' @ [CHR 0x27] @ column @ [CHR 0x27] @ '': int, str''
           \<in> set (mixed_type_lines df)"
    unfolding mixed_type_lines_def using assms(1)
    by (auto simp: Let_def assms(2) sorted_int_str intro!: bexI [of _ column])
  then show ?thesis by (simp add: report_lines_def)
qed

lemma generated_mixed_years:
  assumes "IntCell i \<in> set (column_values (DataFrame data) ''model_year'')"
    and "StrCell s \<in> set (column_values (DataFrame data) ''model_year'')"
  shows "distinct_types (column_values (DataFrame data) ''model_year'') = {''int'', ''str''}"
proof -
  let ?cells = "map (\<lambda>r. cell_of_pyval (model_year r)) data"
  have sub: "set (map type_name ?cells) \<subseteq> {''int'', ''str''}"
    using type_name_cell_of_pyval by auto
  have "IntCell i \<in> set ?cells"
    using assms(1) unfolding model_year_column .
  then have "type_name (IntCell i) \<in> type_name ` set ?cells" by (rule imageI)
  then have 1: "''int'' \<in> set (map type_name ?cells)" by (simp add: image_image)
  have "StrCell s \<in> set ?cells"
    using assms(2) unfolding model_year_column .
  then have "type_name (StrCell s) \<in> type_name ` set ?cells" by (rule imageI)
  then have 2: "''str'' \<in> set (map type_name ?cells)" by (simp add: image_image)
  have "set (map type_name ?cells) = {''int'', ''str''}"
    using sub 1 2 by blast
  then show ?thesis
    unfolding distinct_types_def model_year_column dropna_cell_of_pyval .
qed

lemma texts_Cons_str:
  "{s. StrCell s \<in> set (StrCell t # cells) \<and> s \<notin> expected} =
     (if t \<notin> expected then insert t {s. StrCell s \<in> set cells \<and> s \<notin> expected}
      else {s. StrCell s \<in> set cells \<and> s \<notin> expected})"
  by auto

lemma texts_Cons_other:
  "\<forall>s. c \<noteq> StrCell s \<Longrightarrow>
     {s. StrCell s \<in> set (c # cells) \<and> s \<notin> expected} = {s. StrCell s \<in> set cells \<and> s \<notin> expected}"
  by auto

lemma names_Cons_str:
  "{type_name c |c. c \<in> set (StrCell t # cells) \<and> (\<forall>s. c \<noteq> StrCell s)} =
     {type_name c |c. c \<in> set cells \<and> (\<forall>s. c \<noteq> StrCell s)}"
  by auto

lemma names_Cons_other:
  assumes "\<forall>s. c \<noteq> StrCell s"
  shows "{type_name d |d. d \<in> set (c # cells) \<and> (\<forall>s. d \<noteq> StrCell s)} =
     insert (type_name c) {type_name d |d. d \<in> set cells \<and> (\<forall>s. d \<noteq> StrCell s)}"
proof (rule set_eqI)
  fix n
  show "n \<in> {type_name d |d. d \<in> set (c # cells) \<and> (\<forall>s. d \<noteq> StrCell s)} \<longleftrightarrow>
        n \<in> insert (type_name c) {type_name d |d. d \<in> set cells \<and> (\<forall>s. d \<noteq> StrCell s)}"
  proof
    assume "n \<in> {type_name d |d. d \<in> set (c # cells) \<and> (\<forall>s. d \<noteq> StrCell s)}"
    then obtain d where n: "n = type_name d" and d: "d = c \<or> d \<in> set cells"
      and ns: "\<forall>s. d \<noteq> StrCell s"
      by auto
    from d show "n \<in> insert (type_name c) {type_name d |d. d \<in> set cells \<and> (\<forall>s. d \<noteq> StrCell s)}"
    proof
      assume "d = c"
      with n show ?thesis by simp
    next
      assume "d \<in> set cells"
      with n ns show ?thesis by blast
    qed
  next
    assume "n \<in> insert (type_name c) {type_name d |d. d \<in> set cells \<and> (\<forall>s. d \<noteq> StrCell s)}"
    then have "n = type_name c \<or> (\<exists>d. n = type_name d \<and> d \<in> set cells \<and> (\<forall>s. d \<noteq> StrCell s))"
      by auto
    then show "n \<in> {type_name d |d. d \<in> set (c # cells) \<and> (\<forall>s. d \<noteq> StrCell s)}"
    proof
      assume "n = type_name c"
      with assms have "n = type_name c \<and> c \<in> set (c # cells) \<and> (\<forall>s. c \<noteq> StrCell s)"
        by simp
      then show ?thesis by blast
    next
      assume "\<exists>d. n = type_name d \<and> d \<in> set cells \<and> (\<forall>s. d \<noteq> StrCell s)"
      then obtain d where "n = type_name d \<and> d \<in> set (c # cells) \<and> (\<forall>s. d \<noteq> StrCell s)"
        by auto
      then show ?thesis by blast
    qed
  qed
qed

lemma add_unexpected_other:
  "\<forall>s. c \<noteq> StrCell s \<Longrightarrow> add_unexpected expected c acc = insert (type_name c) acc"
  by (cases c) simp_all

lemma fold_add_unexpected:
  "fold (add_unexpected expected) cells acc =
     acc \<union> {s. StrCell s \<in> set cells \<and> s \<notin> expected} \<union>
     {type_name c |c. c \<in> set cells \<and> (\<forall>s. c \<noteq> StrCell s)}"
proof (induction cells arbitrary: acc)
  case Nil
  then show ?case by simp
next
  case (Cons c cells)
  show ?case
  proof (cases "\<exists>t. c = StrCell t")
    case True
    then obtain t where c: "c = StrCell t" ..
    show ?thesis
      unfolding c fold_Cons comp_def Cons.IH texts_Cons_str names_Cons_str
      by (simp add: Un_assoc insert_commute)
  next
    case False
    then have ns: "\<forall>s. c \<noteq> StrCell s" by simp
    show ?thesis
      unfolding fold_Cons comp_def Cons.IH texts_Cons_other [OF ns] names_Cons_other [OF ns]
        add_unexpected_other [OF ns]
      by (simp add: Un_assoc insert_commute)
  qed
qed

lemma finite_fold_add_unexpected:
  "finite acc \<Longrightarrow> finite (fold (add_unexpected expected) cells acc)"
proof (induction cells arbitrary: acc)
  case Nil
  then show ?case by simp
next
  case (Cons c cells)
  then show ?case by (cases c) simp_all
qed

lemma finite_unexpected_values: "finite (unexpected_values expected cells)"
  by (simp add: unexpected_values_def finite_fold_add_unexpected)

lemma set_dropna: "set (dropna cells) = {c \<in> set cells. \<not> isna c}"
  by (simp add: dropna_def)

lemma unexpected_values_eq:
  "unexpected_values expected cells =
     {s. StrCell s \<in> set cells \<and> s \<notin> expected} \<union>
     {type_name c |c. c \<in> set cells \<and> \<not> isna c \<and> (\<forall>s. c \<noteq> StrCell s)}"
  unfolding unexpected_values_def fold_add_unexpected set_dropna by auto

lemma unexpected_lines_in_report:
  assumes "(column, expected) \<in> set EXPECTED_VALUES"
  shows "set (unexpected_lines_for df column expected) \<subseteq> set (report_lines PD df)"
proof -
  have "set (unexpected_lines_for df column expected) \<subseteq> set (unexpected_value_lines df)"
    unfolding unexpected_value_lines_def using assms by force
  then show ?thesis by (auto simp: report_lines_def)
qed

lemma unexpected_lines_for_sorted:
  assumes "column \<in> set (df_columns df)"
  shows "\<exists>offenders.
        set offenders = unexpected_values expected (column_values df column) \<and>
        sorted offenders \<and> distinct offenders \<and>
        unexpected_lines_for df column expected =
          (if offenders = [] then []
           else [''- Unexpected values in '' @ [CHR 0x27] @ column @ [CHR 0x27] @ '': '' @
                   join '', '' offenders])"
proof -
  let ?U = "unexpected_values expected (column_values df column)"
  let ?L = "sorted_list_of_set ?U"
  have f: "finite ?U" by (rule finite_unexpected_values)
  have e: "?L = [] \<longleftrightarrow> ?U = {}"
    using f by (simp add: sorted_list_of_set_eq_Nil_iff)
  have "unexpected_lines_for df column expected =
          (if ?L = [] then []
           else [''- Unexpected values in '' @ [CHR 0x27] @ column @ [CHR 0x27] @ '': '' @
                   join '', '' ?L])"
    unfolding e using assms by (simp add: unexpected_lines_for_def Let_def)
  moreover have "set ?L = ?U" using f by simp
  moreover have "sorted ?L" by simp
  moreover have "distinct ?L" by simp
  ultimately show ?thesis by blast
qed

lemma luxary_not_expected: "''luxary'' \<notin> {''Base'', ''Sport'', ''Premium'', ''Limited''}"
  by simp

lemma trim_level_expected:
  "(''trim_level'', {''Base'', ''Sport'', ''Premium'', ''Limited''}) \<in> set EXPECTED_VALUES"
  by (simp add: EXPECTED_VALUES_def)

section \<open>Properties of the loader\<close>

lemma find_same3: "find P [x, x, x] = find P [x]"
  by simp

lemma candidates_find:
  assumes "\<forall>p q. path_is_absolute H q \<longrightarrow> path_join H p q = q"
  shows "find (path_exists H) (candidates H source) =
         find (path_exists H) (resolution_order H source)"
proof (cases "path_is_absolute H (path_of H source)")
  case True
  with assms have "resolution_order H source = [path_of H source, path_of H source, path_of H source]"
    by (simp add: resolution_order_def)
  moreover have "candidates H source = [path_of H source]"
    using True by (simp add: candidates_def)
  ultimately show ?thesis by (simp only: find_same3)
next
  case False
  then show ?thesis
    by (simp add: candidates_def resolution_order_def Let_def)
qed

lemma resolve_candidate_path_import [simp]:
  "resolve_candidate_path (H\<lparr>import_module := imp\<rparr>) source = resolve_candidate_path H source"
  by (simp add: resolve_candidate_path_def candidates_def Let_def split: option.split)

lemma load_dataframe_resolved:
  assumes "resolve_candidate_path H source = Some p"
  shows "load_dataframe H source =
     (if lower (path_suffix H p) = ''.csv'' then read_csv H p
      else if lower (path_suffix H p) = ''.py'' then
        (if \<not> spec_usable H p then Inl ImportError
         else case exec_module H p of Inl e \<Rightarrow> Inl e | Inr loaded \<Rightarrow> call_generator loaded)
      else Inl ValueError)"
  using assms by (simp add: load_dataframe_def)

lemma load_dataframe_unresolved:
  assumes "resolve_candidate_path H source = None"
  shows "load_dataframe H source =
     (case import_module H (py_module_name H source) of
        Inl e \<Rightarrow> Inl e | Inr loaded \<Rightarrow> call_generator loaded)"
  using assms by (simp add: load_dataframe_def)

lemma load_dataframe_file_wins:
  assumes "resolve_candidate_path H source \<noteq> None"
  shows "load_dataframe (H\<lparr>import_module := imp\<rparr>) source = load_dataframe H source"
proof -
  from assms obtain p where p: "resolve_candidate_path H source = Some p" by auto
  then have p': "resolve_candidate_path (H\<lparr>import_module := imp\<rparr>) source = Some p" by simp
  show ?thesis
    unfolding load_dataframe_resolved [OF p] load_dataframe_resolved [OF p'] by simp
qed

lemma sample_host_join_law:
  "\<forall>p q. path_is_absolute sample_host q \<longrightarrow> path_join sample_host p q = q"
  by (simp add: sample_host_def)

lemma isl_call_generator:
  "isl (call_generator m) \<longleftrightarrow> m = NoGenerator \<or> (\<exists>outcome. m = Generator outcome \<and> isl outcome)"
  by (cases m) simp_all

lemma csv_not_py: "x = ''.csv'' \<Longrightarrow> x \<noteq> ''.py''"
  by simp







section \<open>The claims\<close>

text \<open>
  Claim C1, as amended.  The identifiers are unique among the base rows only.  For
  \<open>rows \<ge> 3\<close> (and a generator whose index draws are in range) the \<open>car_id\<close>
  column of the returned table has \<open>rows\<close> entries but exactly
  \<open>rows - max(2, rows // 6)\<close> different values, the identifiers \<open>C001\<close>, \<open>C002\<close>,
  ... of the base rows; two rows with the same \<open>car_id\<close> are equal in every column
  (one is a copy of the other).  So the column is never duplicate-free.
\<close>

theorem car_id_identifies_base_row:
  "rng_wf R \<and> 3 \<le> rows \<longrightarrow>
     (\<exists>df. generate_raw_car_equipment_data R rows seed = Inr df \<and>
        int (length (column_values df ''car_id'')) = rows \<and>
        set (column_values df ''car_id'') =
          (\<lambda>i. StrCell (''C'' @ format_03 (i + 1))) ` {0..<nat (base_rows rows)} \<and>
        int (card (set (column_values df ''car_id''))) = rows - max 2 (rows div 6) \<and>
        \<not> distinct (column_values df ''car_id'') \<and>
        (\<forall>i j. i < length (df_rows df) \<and> j < length (df_rows df) \<and>
           column_values df ''car_id'' ! i = column_values df ''car_id'' ! j \<longrightarrow>
           df_rows df ! i = df_rows df ! j))"
proof
  assume a: "rng_wf R \<and> 3 \<le> rows"
  then have wf: "rng_wf R" and rows: "3 \<le> rows" by simp_all
  from generated_table [OF wf rows, of seed] obtain data base dups
    where g: "generate_raw_car_equipment_data R rows seed = Inr (DataFrame data)"
      and m: "mset data = mset (base @ dups)"
      and ok: "list_all2 row_ok [0..<nat (base_rows rows)] base"
      and d: "distinct (map car_id base)"
      and l: "length dups = nat (duplicate_rows_needed rows)"
      and sub: "set dups \<subseteq> set base"
    by blast
  let ?df = "DataFrame data"
  have lb: "length base = nat (base_rows rows)"
    using list_all2_lengthD [OF ok] by simp
  have ld: "length data = length base + length dups"
    using mset_eq_length [OF m] by simp
  have 1: "int (length (column_values ?df ''car_id'')) = rows"
    using generated_row_count [OF rows lb l] ld by (simp add: car_id_column)
  have 2: "set (column_values ?df ''car_id'') =
          (\<lambda>i. StrCell (''C'' @ format_03 (i + 1))) ` {0..<nat (base_rows rows)}"
    using m sub ok by (rule generated_car_ids)
  have "card (set (column_values ?df ''car_id'')) = card {0..<nat (base_rows rows)}"
    unfolding 2 by (rule card_image) (rule inj_on_subset [OF car_id_cells_inj], simp)
  moreover have "0 < base_rows rows"
    using rows unfolding base_rows_def duplicate_rows_needed_def by arith
  ultimately have 3: "int (card (set (column_values ?df ''car_id''))) = rows - max 2 (rows div 6)"
    by (simp add: base_rows_def duplicate_rows_needed_def)
  have nd: "\<not> distinct (column_values ?df ''car_id'')"
  proof
    assume "distinct (column_values ?df ''car_id'')"
    then have "card (set (column_values ?df ''car_id'')) = length (column_values ?df ''car_id'')"
      by (rule distinct_card)
    with 1 3 show False by (simp add: max_def split: if_splits)
  qed
  have 4: "\<forall>i j. i < length (df_rows ?df) \<and> j < length (df_rows ?df) \<and>
           column_values ?df ''car_id'' ! i = column_values ?df ''car_id'' ! j \<longrightarrow>
           df_rows ?df ! i = df_rows ?df ! j"
    using generated_same_car_id [OF m sub d] by (simp add: df_rows_DataFrame)
  from g 1 2 3 nd 4 show "\<exists>df. generate_raw_car_equipment_data R rows seed = Inr df \<and>
        int (length (column_values df ''car_id'')) = rows \<and>
        set (column_values df ''car_id'') =
          (\<lambda>i. StrCell (''C'' @ format_03 (i + 1))) ` {0..<nat (base_rows rows)} \<and>
        int (card (set (column_values df ''car_id''))) = rows - max 2 (rows div 6) \<and>
        \<not> distinct (column_values df ''car_id'') \<and>
        (\<forall>i j. i < length (df_rows df) \<and> j < length (df_rows df) \<and>
           column_values df ''car_id'' ! i = column_values df ''car_id'' ! j \<longrightarrow>
           df_rows df ! i = df_rows df ! j)"
    by (intro exI [of _ ?df] conjI)
qed

theorem car_id_identifies_base_row_witness:
  "rng_wf counter_rng \<and> (3::int) \<le> 12 \<and>
     (\<exists>df. generate_raw_car_equipment_data counter_rng 12 7 = Inr df \<and>
        int (length (column_values df ''car_id'')) = 12 \<and>
        set (column_values df ''car_id'') =
          (\<lambda>i. StrCell (''C'' @ format_03 (i + 1))) ` {0..<nat (base_rows 12)} \<and>
        int (card (set (column_values df ''car_id''))) = 12 - max 2 (12 div 6) \<and>
        \<not> distinct (column_values df ''car_id'') \<and>
        (\<forall>i j. i < length (df_rows df) \<and> j < length (df_rows df) \<and>
           column_values df ''car_id'' ! i = column_values df ''car_id'' ! j \<longrightarrow>
           df_rows df ! i = df_rows df ! j))"
proof -
  have h: "rng_wf counter_rng \<and> (3::int) \<le> 12"
    using rng_wf_counter_rng by simp
  from h have a: "rng_wf counter_rng" and b: "(3::int) \<le> 12" by simp_all
  note c = car_id_identifies_base_row [of counter_rng 12 7, THEN mp, OF h]
  show ?thesis by (rule conjI [OF a conjI [OF b c]])
qed

text \<open>
  The claim as stated fails: with the counter generator, 3 rows and seed 7, the
  \<open>car_id\<close> column is not duplicate-free (the one base row \<open>C001\<close> and its two
  copies).
\<close>

theorem car_id_not_unique_counterexample:
  "map_sum id (\<lambda>df. distinct (column_values df ''car_id''))
     (generate_raw_car_equipment_data counter_rng 3 7) = Inr False"
  by code_simp

text \<open>
  Claim C2.  The number of copies is \<open>max(2, rows // 6)\<close>, and for \<open>rows \<ge> 12\<close> (with a
  generator whose index draws are in range) the returned table is a reordering of
  pairwise different base rows followed by that many verbatim copies of base rows; so
  \<open>duplicated()\<close> marks exactly that many rows of it, which is at least 2.
\<close>

theorem generate_has_duplicate_rows:
  "duplicate_rows_needed rows = max 2 (rows div 6) \<and>
   (rng_wf R \<and> 12 \<le> rows \<longrightarrow>
      (\<exists>df base dups.
         generate_raw_car_equipment_data R rows seed = Inr df \<and>
         mset (df_rows df) = mset (map row_cells (base @ dups)) \<and>
         distinct base \<and>
         set dups \<subseteq> set base \<and>
         int (length dups) = max 2 (rows div 6) \<and>
         duplicate_count df = length dups \<and>
         2 \<le> duplicate_count df))"
proof (intro conjI impI)
  show "duplicate_rows_needed rows = max 2 (rows div 6)"
    by (simp add: duplicate_rows_needed_def)
next
  assume a: "rng_wf R \<and> 12 \<le> rows"
  then have wf: "rng_wf R" and rows: "3 \<le> rows" by simp_all
  from generated_table [OF wf rows, of seed] obtain data base dups
    where g: "generate_raw_car_equipment_data R rows seed = Inr (DataFrame data)"
      and m: "mset data = mset (base @ dups)"
      and d: "distinct (map car_id base)"
      and l: "length dups = nat (duplicate_rows_needed rows)"
      and sub: "set dups \<subseteq> set base"
    by blast
  have m': "mset (df_rows (DataFrame data)) = mset (map row_cells (base @ dups))"
    using arg_cong [OF m, of "image_mset row_cells"] by (simp add: df_rows_DataFrame)
  have l': "int (length dups) = max 2 (rows div 6)"
    using l by (simp add: duplicate_rows_needed_def)
  have c: "duplicate_count (DataFrame data) = length dups"
    using m d sub by (rule generated_duplicate_count)
  have "2 \<le> length dups" using l' by linarith
  with g m' distinct_of_car_id [OF d] sub l' c
  show "\<exists>df base dups.
         generate_raw_car_equipment_data R rows seed = Inr df \<and>
         mset (df_rows df) = mset (map row_cells (base @ dups)) \<and>
         distinct base \<and>
         set dups \<subseteq> set base \<and>
         int (length dups) = max 2 (rows div 6) \<and>
         duplicate_count df = length dups \<and>
         2 \<le> duplicate_count df"
    by (intro exI [of _ "DataFrame data"] exI [of _ base] exI [of _ dups]) simp
qed


theorem generate_has_duplicate_rows_witness:
  "rng_wf counter_rng \<and> (12::int) \<le> 12 \<and>
   (\<exists>df base dups.
         generate_raw_car_equipment_data counter_rng 12 7 = Inr df \<and>
         mset (df_rows df) = mset (map row_cells (base @ dups)) \<and>
         distinct base \<and>
         set dups \<subseteq> set base \<and>
         int (length dups) = max 2 (12 div 6) \<and>
         duplicate_count df = length dups \<and>
         2 \<le> duplicate_count df)"
proof -
  have h: "rng_wf counter_rng \<and> (12::int) \<le> 12"
    using rng_wf_counter_rng by simp
  from generate_has_duplicate_rows [of 12 counter_rng 7, THEN conjunct2, rule_format, OF h] h
  show ?thesis by blast
qed





text \<open>
  Claim C5.  A source is looked up, in this order, as the literal path, relative to the
  directory of the script, and relative to the parent of that directory; the first
  that exists wins, and is resolved.  (For an absolute source the code tries the
  literal path only, which is the same lookup, as \<open>pathlib\<close> joins any path with an
  absolute one to that absolute one.)  Only when none exists is the string imported as
  a module; when one exists, the table loaded does not depend on what importing would
  give, so a string that names both a file and an importable module loads the file.
\<close>

theorem source_resolution_order:
  "(\<forall>p q. path_is_absolute H q \<longrightarrow> path_join H p q = q) \<longrightarrow>
     resolve_candidate_path H source =
       map_option (path_resolve H) (find (path_exists H) (resolution_order H source)) \<and>
     (\<forall>i. i < length (resolution_order H source) \<and>
          path_exists H (resolution_order H source ! i) \<and>
          (\<forall>j. j < i \<longrightarrow> \<not> path_exists H (resolution_order H source ! j)) \<longrightarrow>
          resolve_candidate_path H source = Some (path_resolve H (resolution_order H source ! i))) \<and>
     (resolve_candidate_path H source = None \<longleftrightarrow>
        (\<forall>c \<in> set (resolution_order H source). \<not> path_exists H c)) \<and>
     (resolve_candidate_path H source = None \<longrightarrow>
        load_dataframe H source =
          (case import_module H (py_module_name H source) of
             Inl e \<Rightarrow> Inl e | Inr loaded \<Rightarrow> call_generator loaded)) \<and>
     (resolve_candidate_path H source \<noteq> None \<longrightarrow>
        (\<forall>imp. load_dataframe (H\<lparr>import_module := imp\<rparr>) source = load_dataframe H source))"
proof
  assume law: "\<forall>p q. path_is_absolute H q \<longrightarrow> path_join H p q = q"
  let ?tried = "resolution_order H source"
  have 1: "resolve_candidate_path H source =
       map_option (path_resolve H) (find (path_exists H) ?tried)"
    unfolding resolve_candidate_path_def candidates_find [OF law]
    by (simp split: option.split)
  have 2: "\<forall>i. i < length ?tried \<and> path_exists H (?tried ! i) \<and>
          (\<forall>j. j < i \<longrightarrow> \<not> path_exists H (?tried ! j)) \<longrightarrow>
          resolve_candidate_path H source = Some (path_resolve H (?tried ! i))"
  proof (intro allI impI)
    fix i
    assume a: "i < length ?tried \<and> path_exists H (?tried ! i) \<and>
          (\<forall>j. j < i \<longrightarrow> \<not> path_exists H (?tried ! j))"
    then have "find (path_exists H) ?tried = Some (?tried ! i)"
      unfolding find_Some_iff by blast
    then show "resolve_candidate_path H source = Some (path_resolve H (?tried ! i))"
      unfolding 1 by simp
  qed
  have 3: "resolve_candidate_path H source = None \<longleftrightarrow> (\<forall>c \<in> set ?tried. \<not> path_exists H c)"
    unfolding 1 by (simp add: find_None_iff Ball_def)
  have 4: "resolve_candidate_path H source = None \<longrightarrow>
        load_dataframe H source =
          (case import_module H (py_module_name H source) of
             Inl e \<Rightarrow> Inl e | Inr loaded \<Rightarrow> call_generator loaded)"
    using load_dataframe_unresolved [of H source] by blast
  have 5: "resolve_candidate_path H source \<noteq> None \<longrightarrow>
        (\<forall>imp. load_dataframe (H\<lparr>import_module := imp\<rparr>) source = load_dataframe H source)"
    using load_dataframe_file_wins [of H source] by blast
  from 1 2 3 4 5 show "resolve_candidate_path H source =
       map_option (path_resolve H) (find (path_exists H) (resolution_order H source)) \<and>
     (\<forall>i. i < length (resolution_order H source) \<and>
          path_exists H (resolution_order H source ! i) \<and>
          (\<forall>j. j < i \<longrightarrow> \<not> path_exists H (resolution_order H source ! j)) \<longrightarrow>
          resolve_candidate_path H source = Some (path_resolve H (resolution_order H source ! i))) \<and>
     (resolve_candidate_path H source = None \<longleftrightarrow>
        (\<forall>c \<in> set (resolution_order H source). \<not> path_exists H c)) \<and>
     (resolve_candidate_path H source = None \<longrightarrow>
        load_dataframe H source =
          (case import_module H (py_module_name H source) of
             Inl e \<Rightarrow> Inl e | Inr loaded \<Rightarrow> call_generator loaded)) \<and>
     (resolve_candidate_path H source \<noteq> None \<longrightarrow>
        (\<forall>imp. load_dataframe (H\<lparr>import_module := imp\<rparr>) source = load_dataframe H source))"
    by (intro conjI)
qed

theorem source_resolution_order_witness:
  "resolve_candidate_path sample_host ''data_generation.py'' = Some ''/repo/data_generation.py'' \<and>
   import_module sample_host (py_module_name sample_host ''data_generation.py'') =
     Inr (Generator (generate_raw_car_equipment_data counter_rng 30 7)) \<and>
   load_dataframe (sample_host\<lparr>import_module := (\<lambda>name. Inl ImportError)\<rparr>) ''data_generation.py'' =
     load_dataframe sample_host ''data_generation.py'' \<and>
   resolve_candidate_path sample_host ''nothing'' = None \<and>
   load_dataframe sample_host ''nothing'' = Inl (LibraryError ''ModuleNotFoundError'')"
proof -
  note t1 = source_resolution_order [of sample_host "''data_generation.py''", THEN mp,
      OF sample_host_join_law]
  note t2 = source_resolution_order [of sample_host "''nothing''", THEN mp,
      OF sample_host_join_law]
  have f1: "map_option (path_resolve sample_host)
              (find (path_exists sample_host) (resolution_order sample_host ''data_generation.py''))
            = Some ''/repo/data_generation.py''"
    by code_simp
  have 1: "resolve_candidate_path sample_host ''data_generation.py'' = Some ''/repo/data_generation.py''"
    using t1 [THEN conjunct1] unfolding f1 .
  have 2: "import_module sample_host (py_module_name sample_host ''data_generation.py'') =
     Inr (Generator (generate_raw_car_equipment_data counter_rng 30 7))"
    by (simp add: sample_host_def py_module_name_def endswith_def sample_module_def)
  have ne: "resolve_candidate_path sample_host ''data_generation.py'' \<noteq> None"
    unfolding 1 by simp
  have 3: "load_dataframe (sample_host\<lparr>import_module := (\<lambda>name. Inl ImportError)\<rparr>)
             ''data_generation.py'' = load_dataframe sample_host ''data_generation.py''"
    using t1 [THEN conjunct2, THEN conjunct2, THEN conjunct2, THEN conjunct2, THEN mp, OF ne]
    by (rule spec)
  have f2: "map_option (path_resolve sample_host)
              (find (path_exists sample_host) (resolution_order sample_host ''nothing'')) = None"
    by code_simp
  have 4: "resolve_candidate_path sample_host ''nothing'' = None"
    using t2 [THEN conjunct1] unfolding f2 .
  have i: "import_module sample_host (py_module_name sample_host ''nothing'') =
             Inl (LibraryError ''ModuleNotFoundError'')"
    by (simp add: sample_host_def py_module_name_def endswith_def sample_module_def)
  have 5: "load_dataframe sample_host ''nothing'' = Inl (LibraryError ''ModuleNotFoundError'')"
    using t2 [THEN conjunct2, THEN conjunct2, THEN conjunct2, THEN conjunct1, THEN mp, OF 4]
    unfolding i by simp
  show ?thesis by (intro conjI 1 2 3 4 5)
qed





text \<open>
  Claim C7.  The null check emits exactly one line, the fifth of the report: the literal
  line \<open>- Columns containing null values: none\<close> when no column holds a missing value,
  and otherwise the list, in column order, of \<open>column (count)\<close> for exactly the columns
  whose number of missing values is positive.
\<close>

theorem null_check_one_line:
  "length (null_lines df) = 1 \<and>
   report_lines PD df ! 4 = hd (null_lines df) \<and>
   ((\<forall>col \<in> set (df_columns df). Null \<notin> set (column_values df col)) \<longrightarrow>
      null_lines df = [''- Columns containing null values: none'']) \<and>
   (\<not> (\<forall>col \<in> set (df_columns df). Null \<notin> set (column_values df col)) \<longrightarrow>
      null_lines df =
        [''- Columns containing null values: '' @
           join '', ''
             (map (\<lambda>col. col @ '' ('' @ str_nat (count_list (column_values df col) Null) @ '')'')
                (filter (\<lambda>col. 0 < count_list (column_values df col) Null) (df_columns df)))])"
proof (intro conjI impI)
  show "length (null_lines df) = 1"
    by (simp add: null_lines_def)
  show "report_lines PD df ! 4 = hd (null_lines df)"
    by (rule report_lines_nth_4)
next
  assume "\<forall>col \<in> set (df_columns df). Null \<notin> set (column_values df col)"
  then have "null_columns df = []"
    by (simp only: null_columns_empty_iff)
  then show "null_lines df = [''- Columns containing null values: none'']"
    by (simp only: null_lines_def) simp
next
  assume "\<not> (\<forall>col \<in> set (df_columns df). Null \<notin> set (column_values df col))"
  then have "null_columns df \<noteq> []"
    using null_columns_empty_iff [of df] by blast
  then have "null_lines df = [''- Columns containing null values: '' @ join '', '' (null_columns df)]"
    by (simp add: null_lines_def)
  then show "null_lines df =
        [''- Columns containing null values: '' @
           join '', ''
             (map (\<lambda>col. col @ '' ('' @ str_nat (count_list (column_values df col) Null) @ '')'')
                (filter (\<lambda>col. 0 < count_list (column_values df col) Null) (df_columns df)))]"
    by (simp only: null_columns_eq)
qed

theorem null_check_one_line_witness:
  "null_lines clean_table = [''- Columns containing null values: none''] \<and>
   null_lines sample_table =
     [''- Columns containing null values: exterior_color (2), msrp (1)'']"
proof
  have h: "\<forall>col \<in> set (df_columns clean_table). Null \<notin> set (column_values clean_table col)"
    by (simp add: clean_table_def column_values_def)
  show "null_lines clean_table = [''- Columns containing null values: none'']"
    by (rule null_check_one_line [of clean_table digits_pandas,
          THEN conjunct2, THEN conjunct2, THEN conjunct1, THEN mp, OF h])
next
  have h: "\<not> (\<forall>col \<in> set (df_columns sample_table). Null \<notin> set (column_values sample_table col))"
    by (simp add: sample_table_def column_values_def)
  have e: "''- Columns containing null values: '' @
           join '', ''
             (map (\<lambda>col. col @ '' ('' @ str_nat (count_list (column_values sample_table col) Null) @ '')'')
                (filter (\<lambda>col. 0 < count_list (column_values sample_table col) Null)
                   (df_columns sample_table)))
         = ''- Columns containing null values: exterior_color (2), msrp (1)''"
    by code_simp
  show "null_lines sample_table =
     [''- Columns containing null values: exterior_color (2), msrp (1)'']"
    using null_check_one_line [of sample_table digits_pandas,
          THEN conjunct2, THEN conjunct2, THEN conjunct2, THEN mp, OF h]
    by (simp only: e)
qed

text \<open>
  Claim C8.  For each column of the vocabulary table (\<open>trim_level\<close>, \<open>transmission\<close>,
  \<open>fuel_type\<close>) that the table has, the offenders are the texts of the column that are
  not in the vocabulary, together with the type name of every value that is neither
  missing nor a text; the report lists them once each, in sorted order, on one line
  (no line when there is none).  In particular a \<open>trim_level\<close> value \<open>luxary\<close> is
  listed on the line for \<open>trim_level\<close>.
\<close>

theorem unexpected_values_sorted_unique:
  "map fst EXPECTED_VALUES = [''trim_level'', ''transmission'', ''fuel_type''] \<and>
   ((column, expected) \<in> set EXPECTED_VALUES \<and> column \<in> set (df_columns df) \<longrightarrow>
      (\<exists>offenders.
         set offenders =
           {s. StrCell s \<in> set (column_values df column) \<and> s \<notin> expected} \<union>
           {type_name c |c. c \<in> set (column_values df column) \<and> \<not> isna c \<and>
              (\<forall>s. c \<noteq> StrCell s)} \<and>
         sorted offenders \<and> distinct offenders \<and>
         unexpected_lines_for df column expected =
           (if offenders = [] then []
            else [''- Unexpected values in '' @ [CHR 0x27] @ column @ [CHR 0x27] @ '': '' @
                    join '', '' offenders]) \<and>
         set (unexpected_lines_for df column expected) \<subseteq> set (report_lines PD df))) \<and>
   (''trim_level'' \<in> set (df_columns df) \<and>
    StrCell ''luxary'' \<in> set (column_values df ''trim_level'') \<longrightarrow>
      (\<exists>offenders.
         sorted offenders \<and> distinct offenders \<and> ''luxary'' \<in> set offenders \<and>
         ''- Unexpected values in '' @ [CHR 0x27] @ ''trim_level'' @ [CHR 0x27] @ '': '' @
            join '', '' offenders \<in> set (report_lines PD df)))"
proof (intro conjI impI)
  show "map fst EXPECTED_VALUES = [''trim_level'', ''transmission'', ''fuel_type'']"
    by (simp add: EXPECTED_VALUES_def)
next
  assume a: "(column, expected) \<in> set EXPECTED_VALUES \<and> column \<in> set (df_columns df)"
  then have ev: "(column, expected) \<in> set EXPECTED_VALUES"
    and col: "column \<in> set (df_columns df)"
    by simp_all
  from unexpected_lines_for_sorted [OF col, of expected] obtain offenders
    where s: "set offenders = unexpected_values expected (column_values df column)"
      and so: "sorted offenders" and di: "distinct offenders"
      and l: "unexpected_lines_for df column expected =
          (if offenders = [] then []
           else [''- Unexpected values in '' @ [CHR 0x27] @ column @ [CHR 0x27] @ '': '' @
                   join '', '' offenders])"
    by blast
  note s' = s [unfolded unexpected_values_eq]
  note r = unexpected_lines_in_report [OF ev, of df PD]
  show "\<exists>offenders.
         set offenders =
           {s. StrCell s \<in> set (column_values df column) \<and> s \<notin> expected} \<union>
           {type_name c |c. c \<in> set (column_values df column) \<and> \<not> isna c \<and>
              (\<forall>s. c \<noteq> StrCell s)} \<and>
         sorted offenders \<and> distinct offenders \<and>
         unexpected_lines_for df column expected =
           (if offenders = [] then []
            else [''- Unexpected values in '' @ [CHR 0x27] @ column @ [CHR 0x27] @ '': '' @
                    join '', '' offenders]) \<and>
         set (unexpected_lines_for df column expected) \<subseteq> set (report_lines PD df)"
    by (rule exI [of _ offenders]) (intro conjI s' so di l r)
next
  assume a: "''trim_level'' \<in> set (df_columns df) \<and>
    StrCell ''luxary'' \<in> set (column_values df ''trim_level'')"
  then have col: "''trim_level'' \<in> set (df_columns df)"
    and v: "StrCell ''luxary'' \<in> set (column_values df ''trim_level'')"
    by simp_all
  let ?expected = "{''Base'', ''Sport'', ''Premium'', ''Limited''}"
  from unexpected_lines_for_sorted [OF col, of ?expected] obtain offenders
    where s: "set offenders = unexpected_values ?expected (column_values df ''trim_level'')"
      and so: "sorted offenders" and di: "distinct offenders"
      and l: "unexpected_lines_for df ''trim_level'' ?expected =
          (if offenders = [] then []
           else [''- Unexpected values in '' @ [CHR 0x27] @ ''trim_level'' @ [CHR 0x27] @ '': '' @
                   join '', '' offenders])"
    by blast
  have "''luxary'' \<in> {s. StrCell s \<in> set (column_values df ''trim_level'') \<and> s \<notin> ?expected}"
    using v luxary_not_expected by (intro CollectI conjI)
  then have m: "''luxary'' \<in> set offenders"
    unfolding s unexpected_values_eq by (rule UnI1)
  then have ne: "offenders \<noteq> []" by auto
  have "''- Unexpected values in '' @ [CHR 0x27] @ ''trim_level'' @ [CHR 0x27] @ '': '' @
            join '', '' offenders \<in> set (unexpected_lines_for df ''trim_level'' ?expected)"
    unfolding l using ne by (simp only: if_False list.set insertI1)
  then have "''- Unexpected values in '' @ [CHR 0x27] @ ''trim_level'' @ [CHR 0x27] @ '': '' @
            join '', '' offenders \<in> set (report_lines PD df)"
    using unexpected_lines_in_report [OF trim_level_expected, of df PD] by (rule rev_subsetD)
  with so di m show "\<exists>offenders.
         sorted offenders \<and> distinct offenders \<and> ''luxary'' \<in> set offenders \<and>
         ''- Unexpected values in '' @ [CHR 0x27] @ ''trim_level'' @ [CHR 0x27] @ '': '' @
            join '', '' offenders \<in> set (report_lines PD df)"
    by (intro exI [of _ offenders] conjI)
qed

theorem unexpected_values_sorted_unique_witness:
  "(''trim_level'', {''Base'', ''Sport'', ''Premium'', ''Limited''}) \<in> set EXPECTED_VALUES \<and>
   ''trim_level'' \<in> set (df_columns sample_table) \<and>
   StrCell ''luxary'' \<in> set (column_values sample_table ''trim_level'') \<and>
   unexpected_lines_for sample_table ''trim_level'' {''Base'', ''Sport'', ''Premium'', ''Limited''} =
     [''- Unexpected values in '' @ [CHR 0x27] @ ''trim_level'' @ [CHR 0x27] @
        '': Premuim, int, luxary''] \<and>
   (\<exists>offenders.
      sorted offenders \<and> distinct offenders \<and> ''luxary'' \<in> set offenders \<and>
      ''- Unexpected values in '' @ [CHR 0x27] @ ''trim_level'' @ [CHR 0x27] @ '': '' @
         join '', '' offenders \<in> set (report_lines digits_pandas sample_table))"
proof -
  let ?expected = "{''Base'', ''Sport'', ''Premium'', ''Limited''}"
  note t = unexpected_values_sorted_unique [of "''trim_level''" ?expected sample_table digits_pandas]
  have col: "''trim_level'' \<in> set (df_columns sample_table)"
    by (simp add: sample_table_def)
  have v: "StrCell ''luxary'' \<in> set (column_values sample_table ''trim_level'')"
    by (simp add: sample_table_def column_values_def)
  from t [THEN conjunct2, THEN conjunct1, THEN mp, OF conjI [OF trim_level_expected col]]
  obtain offenders
    where s: "set offenders =
           {s. StrCell s \<in> set (column_values sample_table ''trim_level'') \<and> s \<notin> ?expected} \<union>
           {type_name c |c. c \<in> set (column_values sample_table ''trim_level'') \<and> \<not> isna c \<and>
              (\<forall>s. c \<noteq> StrCell s)}"
      and so: "sorted offenders" and di: "distinct offenders"
      and l: "unexpected_lines_for sample_table ''trim_level'' ?expected =
           (if offenders = [] then []
            else [''- Unexpected values in '' @ [CHR 0x27] @ ''trim_level'' @ [CHR 0x27] @ '': '' @
                    join '', '' offenders])"
    by blast
  have u: "unexpected_values ?expected (column_values sample_table ''trim_level'') =
             set [''Premuim'', ''int'', ''luxary'']"
    by (simp add: unexpected_values_def dropna_def column_values_def sample_table_def insert_commute)
  have s': "set offenders = set [''Premuim'', ''int'', ''luxary'']"
    using s unfolding unexpected_values_eq [symmetric] u .
  have sl: "sorted [''Premuim'', ''int'', ''luxary''] \<and> distinct [''Premuim'', ''int'', ''luxary'']"
    by code_simp
  have o: "offenders = [''Premuim'', ''int'', ''luxary'']"
    using so di sl s' by (intro sorted_distinct_set_unique) simp_all
  have 4: "unexpected_lines_for sample_table ''trim_level'' ?expected =
     [''- Unexpected values in '' @ [CHR 0x27] @ ''trim_level'' @ [CHR 0x27] @
        '': Premuim, int, luxary'']"
    unfolding l o by simp
  note 5 = t [THEN conjunct2, THEN conjunct2, THEN mp, OF conjI [OF col v]]
  show ?thesis
    by (intro conjI trim_level_expected col v 4 5)
qed

text \<open>
  Claim C9.  The generator returns only for \<open>rows \<ge> 3\<close>: with a generator whose
  index draws are in range, every \<open>rows \<ge> 3\<close> and every seed give a table of exactly
  \<open>rows\<close> rows; for \<open>rows \<le> 2\<close> the number of base rows is not positive, the first
  loop leaves \<open>data\<close> empty, and the copying loop's \<open>rng.choice(data)\<close> raises
  \<open>IndexError\<close>.
\<close>

theorem generate_total_iff_three_rows:
  "(rng_wf R \<and> 3 \<le> rows \<longrightarrow>
      (\<exists>df. generate_raw_car_equipment_data R rows seed = Inr df \<and>
            int (length (df_rows df)) = rows)) \<and>
   (rows \<le> 2 \<longrightarrow>
      base_rows rows \<le> 0 \<and>
      build_rows R [0..<nat (base_rows rows)] [] s = Inr ([], s) \<and>
      generate_raw_car_equipment_data R rows seed = Inl IndexError)"
proof (intro conjI impI)
  assume a: "rng_wf R \<and> 3 \<le> rows"
  then have wf: "rng_wf R" and rows: "3 \<le> rows" by simp_all
  from generated_table [OF wf rows, of seed] obtain data base dups
    where g: "generate_raw_car_equipment_data R rows seed = Inr (DataFrame data)"
      and m: "mset data = mset (base @ dups)"
      and ok: "list_all2 row_ok [0..<nat (base_rows rows)] base"
      and l: "length dups = nat (duplicate_rows_needed rows)"
    by blast
  have lb: "length base = nat (base_rows rows)"
    using list_all2_lengthD [OF ok] by simp
  have "length data = length base + length dups"
    using mset_eq_length [OF m] by simp
  then have "int (length (df_rows (DataFrame data))) = rows"
    using generated_row_count [OF rows lb l] by (simp add: df_rows_DataFrame)
  with g show "\<exists>df. generate_raw_car_equipment_data R rows seed = Inr df \<and>
            int (length (df_rows df)) = rows"
    by blast
next
  assume small: "rows \<le> 2"
  show b: "base_rows rows \<le> 0"
    using small unfolding base_rows_def duplicate_rows_needed_def by arith
  then show "build_rows R [0..<nat (base_rows rows)] [] s = Inr ([], s)"
    by (simp add: returnR_def)
  show "generate_raw_car_equipment_data R rows seed = Inl IndexError"
    using generate_data_small [OF small, of R seed] by (simp add: generate_raw_car_equipment_data_def)
qed

theorem generate_total_iff_three_rows_witness:
  "rng_wf counter_rng \<and>
   (\<exists>df. generate_raw_car_equipment_data counter_rng 3 7 = Inr df \<and>
         int (length (df_rows df)) = 3) \<and>
   base_rows 2 \<le> 0 \<and>
   build_rows counter_rng [0..<nat (base_rows 2)] [] 7 = Inr ([], 7) \<and>
   generate_raw_car_equipment_data counter_rng 2 7 = Inl IndexError"
  using generate_total_iff_three_rows [of counter_rng 3 7 7]
    generate_total_iff_three_rows [of counter_rng 2 7 7] rng_wf_counter_rng
  by (simp add: returnR_def)

text \<open>
  Claim C10.  The report holds the line \<open>- 'model_year' includes non-numeric entries\<close>
  if and only if the table has a \<open>model_year\<close> column and the coercion turns one of its
  values into NaN.  A year the generator renders as text is a string of decimal digits,
  which pandas reads as a number: so for every table the generator returns, the line is
  absent; a table that holds years of both kinds shows it in the mixed-type line.
\<close>

theorem model_year_line_iff_coercion_fails:
  "(model_year_line \<in> set (report_lines PD df) \<longleftrightarrow>
      ''model_year'' \<in> set (df_columns df) \<and>
      (\<exists>c \<in> set (column_values df ''model_year''). to_numeric_isna PD c)) \<and>
   (rng_wf R \<and>
    (\<forall>s. s \<noteq> [] \<and> list_all is_digit s \<longrightarrow> parses_numeric PD s) \<and>
    generate_raw_car_equipment_data R rows seed = Inr df \<longrightarrow>
      ''model_year'' \<in> set (df_columns df) \<and>
      model_year_line \<notin> set (report_lines PD df)) \<and>
   (rng_wf R \<and>
    generate_raw_car_equipment_data R rows seed = Inr df \<and>
    (\<exists>i. IntCell i \<in> set (column_values df ''model_year'')) \<and>
    (\<exists>s. StrCell s \<in> set (column_values df ''model_year'')) \<longrightarrow>
      ''- Mixed data types in '' @ [CHR 0x27] @ ''model_year'' @ [CHR 0x27] @ '': int, str''
        \<in> set (report_lines PD df))"
proof (intro conjI impI)
  show "model_year_line \<in> set (report_lines PD df) \<longleftrightarrow>
      ''model_year'' \<in> set (df_columns df) \<and>
      (\<exists>c \<in> set (column_values df ''model_year''). to_numeric_isna PD c)"
    by (simp only: model_year_line_in_report non_numeric_count_pos)
next
  assume a: "rng_wf R \<and>
    (\<forall>s. s \<noteq> [] \<and> list_all is_digit s \<longrightarrow> parses_numeric PD s) \<and>
    generate_raw_car_equipment_data R rows seed = Inr df"
  then have wf: "rng_wf R"
    and p: "\<forall>s. s \<noteq> [] \<and> list_all is_digit s \<longrightarrow> parses_numeric PD s"
    and g: "generate_raw_car_equipment_data R rows seed = Inr df"
    by blast+
  from generated_model_years [OF wf g] obtain data
    where df: "df = DataFrame data" and ne: "data \<noteq> []"
      and ok: "\<forall>r \<in> set data. year_ok (model_year r)"
    by blast
  show "''model_year'' \<in> set (df_columns df)"
    unfolding df using ne by (rule model_year_in_columns)
  have "\<forall>c \<in> set (column_values df ''model_year''). \<not> to_numeric_isna PD c"
    unfolding df model_year_column using ok year_ok_parses [OF _ p] by auto
  then have "non_numeric_count PD (column_values df ''model_year'') = 0"
    using non_numeric_count_pos [of PD "column_values df ''model_year''"] by blast
  then show "model_year_line \<notin> set (report_lines PD df)"
    by (simp only: model_year_line_in_report) simp
next
  assume a: "rng_wf R \<and>
    generate_raw_car_equipment_data R rows seed = Inr df \<and>
    (\<exists>i. IntCell i \<in> set (column_values df ''model_year'')) \<and>
    (\<exists>s. StrCell s \<in> set (column_values df ''model_year''))"
  then have wf: "rng_wf R"
    and g: "generate_raw_car_equipment_data R rows seed = Inr df"
    by blast+
  from generated_model_years [OF wf g] obtain data
    where df: "df = DataFrame data" and ne: "data \<noteq> []"
    by blast
  from a obtain i s where i: "IntCell i \<in> set (column_values (DataFrame data) ''model_year'')"
    and s: "StrCell s \<in> set (column_values (DataFrame data) ''model_year'')"
    unfolding df by blast
  show "''- Mixed data types in '' @ [CHR 0x27] @ ''model_year'' @ [CHR 0x27] @ '': int, str''
        \<in> set (report_lines PD df)"
    unfolding df
    by (rule mixed_line_member [OF model_year_in_columns [OF ne] generated_mixed_years [OF i s]])
qed


theorem model_year_line_iff_coercion_fails_witness:
  "rng_wf counter_rng \<and>
   (\<exists>df. generate_raw_car_equipment_data counter_rng 4 0 = Inr df \<and>
      ''model_year'' \<in> set (df_columns df) \<and>
      model_year_line \<notin> set (report_lines digits_pandas df) \<and>
      ''- Mixed data types in '' @ [CHR 0x27] @ ''model_year'' @ [CHR 0x27] @ '': int, str''
        \<in> set (report_lines digits_pandas df)) \<and>
   model_year_line \<in> set (report_lines digits_pandas sample_table)"
proof -
  have p: "\<forall>s. s \<noteq> [] \<and> list_all is_digit s \<longrightarrow> parses_numeric digits_pandas s"
    by (simp add: digits_pandas_def)
  from generated_table [OF rng_wf_counter_rng, of 4 0] obtain data
    where g: "generate_raw_car_equipment_data counter_rng 4 0 = Inr (DataFrame data)"
    by auto
  note t = model_year_line_iff_coercion_fails [of digits_pandas _ counter_rng 4 0]
  have 1: "''model_year'' \<in> set (df_columns (DataFrame data)) \<and>
      model_year_line \<notin> set (report_lines digits_pandas (DataFrame data))"
    using t [of "DataFrame data", THEN conjunct2, THEN conjunct1, THEN mp] rng_wf_counter_rng p g
    by (simp only: simp_thms)
  have "map_sum id (\<lambda>df. column_values df ''model_year'')
          (generate_raw_car_equipment_data counter_rng 4 0) =
        Inr [IntCell 2023, IntCell 2023, StrCell ''2016'', StrCell ''2016'']"
    by code_simp
  then have "column_values (DataFrame data) ''model_year'' =
        [IntCell 2023, IntCell 2023, StrCell ''2016'', StrCell ''2016'']"
    unfolding g by simp
  then have k: "(\<exists>i. IntCell i \<in> set (column_values (DataFrame data) ''model_year'')) \<and>
      (\<exists>s. StrCell s \<in> set (column_values (DataFrame data) ''model_year''))"
    by simp
  have m: "''- Mixed data types in '' @ [CHR 0x27] @ ''model_year'' @ [CHR 0x27] @ '': int, str''
        \<in> set (report_lines digits_pandas (DataFrame data))"
    using t [of "DataFrame data", THEN conjunct2, THEN conjunct2, THEN mp] rng_wf_counter_rng g k
    by (simp only: simp_thms)
  have c: "''model_year'' \<in> set (df_columns sample_table)"
    by (simp add: sample_table_def)
  have "StrCell ''n/a'' \<in> set (column_values sample_table ''model_year'')"
    by (simp add: sample_table_def column_values_def)
  moreover have "to_numeric_isna digits_pandas (StrCell ''n/a'')"
    by (simp add: digits_pandas_def is_digit_def less_eq_char_def)
  ultimately have "\<exists>c \<in> set (column_values sample_table ''model_year''). to_numeric_isna digits_pandas c"
    by (rule bexI [rotated])
  with c have 2: "model_year_line \<in> set (report_lines digits_pandas sample_table)"
    using t [of sample_table, THEN conjunct1] by (simp only: simp_thms)
  from g 1 m have 3: "\<exists>df. generate_raw_car_equipment_data counter_rng 4 0 = Inr df \<and>
      ''model_year'' \<in> set (df_columns df) \<and>
      model_year_line \<notin> set (report_lines digits_pandas df) \<and>
      ''- Mixed data types in '' @ [CHR 0x27] @ ''model_year'' @ [CHR 0x27] @ '': int, str''
        \<in> set (report_lines digits_pandas df)"
    by (intro exI [of _ "DataFrame data"] conjI) (simp_all only: simp_thms)
  from rng_wf_counter_rng 3 2 show ?thesis by (intro conjI)
qed

end
